theory Spec2Isabelle
  imports Complex_Main "HOL-Library.AList"
begin

section \<open>JavaScript values and strings\<close>

text \<open>
  A JavaScript string is a sequence of code units; \<open>length\<close>, \<open>substring\<close>, \<open>trim\<close>,
  \<open>startsWith\<close> and \<open>replace\<close> all count and compare code units. The model writes a string
  as a \<open>char list\<close>, one \<open>char\<close> per code unit, which covers the code units 0 to 255
  (ASCII and Latin-1). The structured data handed to the sanitizer is a tree of the
  run-time cases that \<open>process\<close> and \<open>deepClone\<close> of \<^verbatim>\<open>src/filters/sanitize.ts\<close> tell apart,
  with the BigInt among the primitives because \<open>JSON.stringify\<close> throws on it. An object is
  the list of its own enumerable properties in \<open>Object.keys\<close> order. A value is a finite
  tree: an object that contains itself, on which \<open>deepClone\<close> does not return, is not a
  value of the model.
\<close>

datatype jsvalue =
    JNull
  | JUndefined
  | JBool bool
  | JNumber real
  | JBigInt int
  | JString string
  | JBuffer "nat list"
  | JDate int
  | JArray "jsvalue list"
  | JObject "(string \<times> jsvalue) list"

text \<open>\<open>String.prototype.toLowerCase\<close> on one code unit of the Latin-1 range.\<close>

definition lowerChar :: "char \<Rightarrow> char" where
  "lowerChar c =
     (let n = (of_char c :: nat)
      in if (65 \<le> n \<and> n \<le> 90) \<or> (192 \<le> n \<and> n \<le> 222 \<and> n \<noteq> 215)
         then char_of (n + 32) else c)"

definition toLowerCase :: "string \<Rightarrow> string" where
  "toLowerCase s = map lowerChar s"

text \<open>
  The canonicalisation that a regular expression with the \<open>i\<close> flag (and no \<open>u\<close> flag)
  applies to both the pattern character and the input character: the upper-case form when
  that is a single code unit. In the Latin-1 range the letters a-z and the accented
  letters 224-254 (without the division sign 247) change; the micro sign, the sharp s and
  y-diaeresis keep a canonical form shared with no other Latin-1 code unit, so they are
  left as they are.
\<close>

definition canonicalize :: "char \<Rightarrow> char" where
  "canonicalize c =
     (let n = (of_char c :: nat)
      in if (97 \<le> n \<and> n \<le> 122) \<or> (224 \<le> n \<and> n \<le> 254 \<and> n \<noteq> 247)
         then char_of (n - 32) else c)"

section \<open>Sanitizer (\<^verbatim>\<open>src/filters/sanitize.ts\<close>)\<close>

definition FILTERED :: string where
  "FILTERED = ''[FILTERED]''"

definition TRUNCATE_LIMIT :: nat where
  "TRUNCATE_LIMIT = 10000"

definition MAX_DEPTH :: nat where
  "MAX_DEPTH = 10"

text \<open>
  The compiled \<open>filterPattern\<close>. \<open>buildPattern\<close> returns either the never-matching
  \<^verbatim>\<open>/(?!)/\<close> or \<^verbatim>\<open>new RegExp(patterns.join('|'), 'i')\<close>, a disjunction whose alternatives
  are the escaped keys; \<open>Disjunction\<close> keeps the pattern text of each alternative.
\<close>

datatype regexp = NeverMatch | Disjunction "string list"

text \<open>The characters of the class \<^verbatim>\<open>[.*+?^${}()|[\]\\]\<close>: every syntax character of a pattern.\<close>

definition syntaxChars :: "char list" where
  "syntaxChars = [CHR ''.'', CHR ''*'', CHR ''+'', CHR ''?'', CHR ''^'', CHR ''$'', CHR ''{'', CHR ''}'',
     CHR ''('', CHR '')'', CHR ''|'', CHR ''['', CHR '']'', CHR 0x5C]"

text \<open>\<^verbatim>\<open>k.replace(/[.*+?^${}()|[\]\\]/g, '\\$&')\<close>: a backslash before every syntax character.\<close>

fun escapeRegExp :: "string \<Rightarrow> string" where
  "escapeRegExp [] = []"
| "escapeRegExp (c # cs) =
     (if c \<in> set syntaxChars then CHR 0x5C # c # escapeRegExp cs else c # escapeRegExp cs)"

definition buildPattern :: "string list \<Rightarrow> regexp" where
  "buildPattern keys =
     (if length keys = 0 then NeverMatch
      else Disjunction (map (\<lambda>k. escapeRegExp (toLowerCase k)) keys))"

text \<open>
  What one alternative matches: a backslash makes the next character literal, every other
  character stands for itself (no syntax character is left unescaped by \<open>escapeRegExp\<close>).
\<close>

fun literalOf :: "string \<Rightarrow> string" where
  "literalOf [] = []"
| "literalOf [c] = [c]"
| "literalOf (c # d # cs) = (if c = CHR 0x5C then d # literalOf cs else c # literalOf (d # cs))"

fun matchesHere :: "string \<Rightarrow> string \<Rightarrow> bool" where
  "matchesHere [] t = True"
| "matchesHere (p # ps) [] = False"
| "matchesHere (p # ps) (c # cs) = (canonicalize p = canonicalize c \<and> matchesHere ps cs)"

fun matchesSomewhere :: "string \<Rightarrow> string \<Rightarrow> bool" where
  "matchesSomewhere lit [] = matchesHere lit []"
| "matchesSomewhere lit (c # cs) = (matchesHere lit (c # cs) \<or> matchesSomewhere lit cs)"

text \<open>\<open>RegExp.prototype.test\<close> (no \<open>g\<close> or \<open>y\<close> flag, so no state between calls).\<close>

fun test :: "regexp \<Rightarrow> string \<Rightarrow> bool" where
  "test NeverMatch s = False"
| "test (Disjunction alts) s = list_ex (\<lambda>a. matchesSomewhere (literalOf a) s) alts"

record SanitizeFilter =
  filterPattern :: regexp

definition newSanitizeFilter :: "string list \<Rightarrow> SanitizeFilter" where
  "newSanitizeFilter filterKeys = \<lparr> filterPattern = buildPattern filterKeys \<rparr>"

definition shouldFilter :: "SanitizeFilter \<Rightarrow> string \<Rightarrow> bool" where
  "shouldFilter this key =
     (if key = [] then False else test (filterPattern this) (toLowerCase key))"

definition truncateString :: "string \<Rightarrow> string" where
  "truncateString str =
     (if length str \<le> TRUNCATE_LIMIT then str
      else take (TRUNCATE_LIMIT - 13) str @ ''...[TRUNCATED]'')"

text \<open>
  \<open>deepClone\<close> copies arrays and plain objects, builds a new Date and shares buffers and
  primitives. The copy of an object is built by \<open>result[key] = ...\<close> on a fresh \<open>{}\<close>. For the
  key \<^verbatim>\<open>__proto__\<close> that assignment runs the prototype setter of the fresh object: no own
  property is created (an object value becomes the prototype of the copy, any other value
  is ignored), so the copy has no such key. What the copy inherits from its prototype is
  not among its own properties, and \<open>process\<close>, which builds its results on fresh objects
  from \<open>Object.keys\<close>, never reads it. The one thing \<open>process\<close> can see of the prototype is
  whether it makes the copy an instance of \<open>Buffer\<close>: that is so when the value under
  \<^verbatim>\<open>__proto__\<close> is a buffer, or an object whose own copy is such an instance.
  \<open>protoBuffer\<close> finds that buffer, and the model writes such a copy as the buffer, since
  \<open>obj instanceof Buffer\<close> is all that \<open>process\<close> asks of it.
\<close>

fun protoBuffer :: "jsvalue \<Rightarrow> nat list option"
  and protoBufferEntries :: "(string \<times> jsvalue) list \<Rightarrow> nat list option" where
  "protoBuffer (JBuffer b) = Some b"
| "protoBuffer (JObject entries) = protoBufferEntries entries"
| "protoBuffer JNull = None"
| "protoBuffer JUndefined = None"
| "protoBuffer (JBool b) = None"
| "protoBuffer (JNumber n) = None"
| "protoBuffer (JBigInt n) = None"
| "protoBuffer (JString s) = None"
| "protoBuffer (JDate t) = None"
| "protoBuffer (JArray items) = None"
| "protoBufferEntries [] = None"
| "protoBufferEntries ((key, v) # entries) =
     (if key = ''__proto__'' then protoBuffer v else protoBufferEntries entries)"

fun deepClone :: "jsvalue \<Rightarrow> jsvalue"
  and deepCloneItems :: "jsvalue list \<Rightarrow> jsvalue list"
  and deepCloneEntries :: "(string \<times> jsvalue) list \<Rightarrow> (string \<times> jsvalue) list" where
  "deepClone (JBuffer b) = JBuffer b"
| "deepClone (JDate t) = JDate t"
| "deepClone (JArray items) = JArray (deepCloneItems items)"
| "deepClone (JObject entries) =
     (case protoBufferEntries entries of
        Some b \<Rightarrow> JBuffer b
      | None \<Rightarrow> JObject (deepCloneEntries entries))"
| "deepClone JNull = JNull"
| "deepClone JUndefined = JUndefined"
| "deepClone (JBool b) = JBool b"
| "deepClone (JNumber n) = JNumber n"
| "deepClone (JBigInt n) = JBigInt n"
| "deepClone (JString s) = JString s"
| "deepCloneItems [] = []"
| "deepCloneItems (item # items) = deepClone item # deepCloneItems items"
| "deepCloneEntries [] = []"
| "deepCloneEntries ((key, v) # entries) =
     (if key = ''__proto__'' then deepCloneEntries entries
      else (key, deepClone v) # deepCloneEntries entries)"

text \<open>
  \<open>process\<close> and \<open>processObject\<close>. \<open>processItems\<close> is the \<open>obj.map\<close> over an array and
  \<open>processEntries\<close> the \<open>for\<close> loop over \<open>Object.keys(obj)\<close>. A Date is an object with no
  own enumerable property, so \<open>processObject\<close> turns it into the empty object. As in
  \<open>deepClone\<close>, the assignment \<open>result[key] = ...\<close> creates no own property for the key
  \<^verbatim>\<open>__proto__\<close>. A BigInt, like a boolean or a number, reaches the final \<open>return obj\<close>.
\<close>

fun process :: "SanitizeFilter \<Rightarrow> jsvalue \<Rightarrow> nat \<Rightarrow> jsvalue"
  and processItems :: "SanitizeFilter \<Rightarrow> jsvalue list \<Rightarrow> nat \<Rightarrow> jsvalue list"
  and processEntries :: "SanitizeFilter \<Rightarrow> (string \<times> jsvalue) list \<Rightarrow> nat \<Rightarrow> (string \<times> jsvalue) list" where
  "process this JNull depth = (if depth > MAX_DEPTH then JString FILTERED else JNull)"
| "process this JUndefined depth = (if depth > MAX_DEPTH then JString FILTERED else JUndefined)"
| "process this (JArray items) depth =
     (if depth > MAX_DEPTH then JString FILTERED else JArray (processItems this items (depth + 1)))"
| "process this (JBuffer b) depth =
     (if depth > MAX_DEPTH then JString FILTERED else JString ''[Buffer]'')"
| "process this (JObject entries) depth =
     (if depth > MAX_DEPTH then JString FILTERED else JObject (processEntries this entries depth))"
| "process this (JDate t) depth =
     (if depth > MAX_DEPTH then JString FILTERED else JObject [])"
| "process this (JString s) depth =
     (if depth > MAX_DEPTH then JString FILTERED else JString (truncateString s))"
| "process this (JBool b) depth = (if depth > MAX_DEPTH then JString FILTERED else JBool b)"
| "process this (JNumber n) depth = (if depth > MAX_DEPTH then JString FILTERED else JNumber n)"
| "process this (JBigInt n) depth = (if depth > MAX_DEPTH then JString FILTERED else JBigInt n)"
| "processItems this [] depth = []"
| "processItems this (item # items) depth = process this item depth # processItems this items depth"
| "processEntries this [] depth = []"
| "processEntries this ((key, v) # entries) depth =
     (if key = ''__proto__'' then processEntries this entries depth
      else (key, if shouldFilter this key then JString FILTERED else process this v (depth + 1))
             # processEntries this entries depth)"

definition sanitize :: "SanitizeFilter \<Rightarrow> jsvalue \<Rightarrow> jsvalue" where
  "sanitize this data = process this (deepClone data) 0"

subsection \<open>Reading a nested value\<close>






section \<open>Notice builder (\<^verbatim>\<open>notice.ts\<close>, the first 109 lines of \<^verbatim>\<open>src/unnamed/part_001\<close>)\<close>

definition MAX_BACKTRACE_LINES :: nat where
  "MAX_BACKTRACE_LINES = 100"

definition MAX_MESSAGE_LENGTH :: nat where
  "MAX_MESSAGE_LENGTH = 10000"

type_synonym Context = "(string \<times> jsvalue) list"

text \<open>An \<open>Error\<close> object as \<open>createNotice\<close> reads it; \<open>None\<close> is \<open>undefined\<close>.\<close>

record JSError =
  err_name :: string
  err_message :: string
  err_stack :: "string option"

record NoticeOptions =
  o_context :: "Context option"
  o_request :: "Context option"
  o_user :: "Context option"
  o_fingerprint :: "string option"
  o_tags :: "string list option"
  o_environment :: "string option"
  o_rootPath :: "string option"
  o_appName :: "string option"
  o_revision :: "string option"

record Notice =
  errorClass :: string
  message :: string
  backtrace :: "string list"
  fingerprint :: "string option"
  tags :: "string list"
  contextData :: Context
  request :: Context
  user :: Context
  environment :: "string option"
  occurredAt :: string
  appName :: "string option"
  revision :: "string option"

record Notifier =
  n_name :: string
  n_version :: string
  n_language :: string
  n_language_version :: string

text \<open>
  The payload as \<open>JSON.stringify\<close> writes it: a property whose value is \<open>undefined\<close> is
  left out of the text, so an optional field is \<open>None\<close> exactly when the wire form has no
  such field.
\<close>

record ErrorPayload =
  e_class :: string
  e_message :: string
  e_backtrace :: "string list"
  e_occurred_at :: string
  e_fingerprint :: "string option"
  e_tags :: "string list option"

record NoticePayload =
  p_error :: ErrorPayload
  p_context :: Context
  p_request :: Context
  p_user :: Context
  p_notifier :: Notifier

text \<open>
  \<open>VERSION\<close> comes from \<^verbatim>\<open>./version\<close> and \<open>process.version\<close> from the host; both are
  parameters of the model.
\<close>

record Runtime =
  VERSION :: string
  process_version :: string

text \<open>\<open>a || b\<close> on strings: the empty string is falsy.\<close>

definition orElse :: "string \<Rightarrow> string \<Rightarrow> string" where
  "orElse a b = (if a = [] then b else a)"

text \<open>Truthiness of an optional string: \<open>undefined\<close> and the empty string are falsy.\<close>

fun truthy :: "string option \<Rightarrow> bool" where
  "truthy None = False"
| "truthy (Some s) = (s \<noteq> [])"

text \<open>Object spread \<^verbatim>\<open>{...a, ...b}\<close>: a key of \<open>b\<close> overwrites in place or is added at the end.\<close>

definition spread :: "Context \<Rightarrow> Context \<Rightarrow> Context" where
  "spread a b = fold (\<lambda>(k, v). AList.update k v) b a"

text \<open>\<open>str.split('\n')\<close> with a one-character separator.\<close>

fun split :: "char \<Rightarrow> string \<Rightarrow> string list" where
  "split sep [] = [[]]"
| "split sep (c # cs) =
     (if c = sep then [] # split sep cs
      else (case split sep cs of [] \<Rightarrow> [[c]] | l # ls \<Rightarrow> (c # l) # ls))"

text \<open>White space and line terminators that \<open>trim\<close> strips, in the Latin-1 range.\<close>

definition isWhiteSpace :: "char \<Rightarrow> bool" where
  "isWhiteSpace c = ((of_char c :: nat) \<in> {9, 10, 11, 12, 13, 32, 160})"

definition trim :: "string \<Rightarrow> string" where
  "trim s = rev (dropWhile isWhiteSpace (rev (dropWhile isWhiteSpace s)))"

definition startsWith :: "string \<Rightarrow> string \<Rightarrow> bool" where
  "startsWith s p = (take (length p) s = p)"

text \<open>\<open>String.prototype.includes\<close>.\<close>

fun stringIncludes :: "string \<Rightarrow> string \<Rightarrow> bool" where
  "stringIncludes [] p = (p = [])"
| "stringIncludes (c # cs) p = (startsWith (c # cs) p \<or> stringIncludes cs p)"

text \<open>
  \<open>line.replace(pattern, replacement)\<close> with a string pattern: only the first occurrence
  is replaced. The replacement text \<^verbatim>\<open>[PROJECT_ROOT]\<close> has no \<^verbatim>\<open>$\<close>, so it is inserted
  as it is.
\<close>

fun replace :: "string \<Rightarrow> string \<Rightarrow> string \<Rightarrow> string" where
  "replace [] p r = (if p = [] then r else [])"
| "replace (c # cs) p r =
     (if startsWith (c # cs) p then r @ drop (length p) (c # cs) else c # replace cs p r)"

definition cleanBacktraceLine :: "string \<Rightarrow> string option \<Rightarrow> string" where
  "cleanBacktraceLine line rootPath =
     (if \<not> truthy rootPath then line else replace line (the rootPath) ''[PROJECT_ROOT]'')"

definition parseBacktrace :: "string option \<Rightarrow> string option \<Rightarrow> string list" where
  "parseBacktrace stack rootPath =
     (if \<not> truthy stack then []
      else take MAX_BACKTRACE_LINES
             (map (\<lambda>line. cleanBacktraceLine (trim line) rootPath)
                (filter (\<lambda>line. startsWith (trim line) ''at '') (split (CHR 0x0A) (the stack)))))"

definition truncateMessage :: "string \<Rightarrow> string" where
  "truncateMessage msg =
     (if msg = [] then []
      else if length msg \<le> MAX_MESSAGE_LENGTH then msg
      else take (MAX_MESSAGE_LENGTH - 3) msg @ ''...'')"

text \<open>\<open>now\<close> is the value of \<^verbatim>\<open>new Date().toISOString()\<close> at the call.\<close>

definition createNotice :: "string \<Rightarrow> JSError \<Rightarrow> NoticeOptions \<Rightarrow> Notice" where
  "createNotice now error options =
     \<lparr> errorClass = orElse (err_name error) ''Error'',
       message = truncateMessage (orElse (err_message error) ''Unknown error''),
       backtrace = parseBacktrace (err_stack error) (o_rootPath options),
       fingerprint = o_fingerprint options,
       tags = (case o_tags options of None \<Rightarrow> [] | Some t \<Rightarrow> t),
       contextData = (case o_context options of None \<Rightarrow> [] | Some c \<Rightarrow> c),
       request = (case o_request options of None \<Rightarrow> [] | Some r \<Rightarrow> r),
       user = (case o_user options of None \<Rightarrow> [] | Some u \<Rightarrow> u),
       environment = o_environment options,
       occurredAt = now,
       appName = o_appName options,
       revision = o_revision options \<rparr>"

definition toPayload :: "Runtime \<Rightarrow> Notice \<Rightarrow> NoticePayload" where
  "toPayload rt notice =
     \<lparr> p_error =
         \<lparr> e_class = errorClass notice,
           e_message = message notice,
           e_backtrace = backtrace notice,
           e_occurred_at = occurredAt notice,
           e_fingerprint = fingerprint notice,
           e_tags = (if length (tags notice) > 0 then Some (tags notice) else None) \<rparr>,
       p_context =
         spread
           (spread
              (spread (contextData notice)
                 (if truthy (environment notice)
                  then [(''environment'', JString (the (environment notice)))] else []))
              (if truthy (appName notice)
               then [(''app_name'', JString (the (appName notice)))] else []))
           (if truthy (revision notice)
            then [(''revision'', JString (the (revision notice)))] else []),
       p_request = request notice,
       p_user = user notice,
       p_notifier =
         \<lparr> n_name = ''@checkend/node'',
           n_version = VERSION rt,
           n_language = ''javascript'',
           n_language_version = process_version rt \<rparr> \<rparr>"

section \<open>Effects, log messages and configuration\<close>

text \<open>
  What a \<open>catch\<close> can receive: an \<open>Error\<close> object (its name and message) or any other
  thrown value (its \<open>String(e)\<close> text). A promise settles as fulfilled or rejected.
\<close>

datatype thrown = ErrorObject string string | OtherValue string

datatype 'a settled = Fulfilled 'a | Rejected thrown

datatype level = LDebug | LInfo | LWarn | LError

text \<open>One constructor for each message the logger receives, with the interpolated values.\<close>

datatype logmsg =
    NoticeBlocked
  | CallbackFailed string
  | QueueFull
  | NoticeSent jsvalue
  | BadRequest string
  | AuthFailed
  | InvalidPayload string
  | RateLimited
  | ServerError nat string
  | Unexpected nat string
  | RequestTimeout
  | SendFailed thrown

text \<open>
  The effects, in the order they happen: the delivery queue hands a payload to the
  transport (it calls \<open>client.send\<close>), a \<open>fetch\<close> request is issued for a payload, the
  logger is called, a \<open>sleep\<close> of so many milliseconds is started, the \<open>resolve\<close> of a flush
  promise is called, a promise returned by \<open>stop\<close> is resolved.
\<close>

datatype effect =
    Send NoticePayload
  | Fetch NoticePayload
  | Log level logmsg
  | Sleep int
  | Resolve nat
  | StopResolved

type_synonym trace = "effect list"

text \<open>The payloads handed to the transport, and the payloads requests were issued for.\<close>

fun sent :: "trace \<Rightarrow> NoticePayload list" where
  "sent [] = []"
| "sent (Send p # tr) = p # sent tr"
| "sent (Fetch p # tr) = sent tr"
| "sent (Log l m # tr) = sent tr"
| "sent (Sleep d # tr) = sent tr"
| "sent (Resolve r # tr) = sent tr"
| "sent (StopResolved # tr) = sent tr"

fun fetched :: "trace \<Rightarrow> NoticePayload list" where
  "fetched [] = []"
| "fetched (Send p # tr) = fetched tr"
| "fetched (Fetch p # tr) = p # fetched tr"
| "fetched (Log l m # tr) = fetched tr"
| "fetched (Sleep d # tr) = fetched tr"
| "fetched (Resolve r # tr) = fetched tr"
| "fetched (StopResolved # tr) = fetched tr"

text \<open>
  A \<open>beforeNotify\<close> callback is handed the notice object: it returns a value or throws, and
  it may have changed the notice.
\<close>

datatype callback_result = Returned jsvalue | Threw thrown

type_synonym BeforeNotifyCallback = "Notice \<Rightarrow> callback_result \<times> Notice"

text \<open>
  The settings of \<^verbatim>\<open>configuration.ts\<close> (\<^verbatim>\<open>src/unnamed/part_003\<close>) that the pipeline below
  reads, with the defaults of its constructor.
\<close>

record ConfigOptions =
  opt_timeout :: "nat option"
  opt_beforeNotify :: "BeforeNotifyCallback list option"
  opt_maxQueueSize :: "nat option"
  opt_shutdownTimeout :: "nat option"

record Configuration =
  timeout :: nat
  beforeNotify :: "BeforeNotifyCallback list"
  maxQueueSize :: nat
  shutdownTimeout :: nat

definition newConfiguration :: "ConfigOptions \<Rightarrow> Configuration" where
  "newConfiguration options =
     \<lparr> timeout = (case opt_timeout options of None \<Rightarrow> 15000 | Some t \<Rightarrow> t),
       beforeNotify = (case opt_beforeNotify options of None \<Rightarrow> [] | Some cbs \<Rightarrow> cbs),
       maxQueueSize = (case opt_maxQueueSize options of None \<Rightarrow> 1000 | Some n \<Rightarrow> n),
       shutdownTimeout = (case opt_shutdownTimeout options of None \<Rightarrow> 5 | Some t \<Rightarrow> t) \<rparr>"

section \<open>Pre-send callbacks (\<open>runBeforeNotifyCallbacks\<close> of \<^verbatim>\<open>index.ts\<close>, in \<^verbatim>\<open>src/unnamed/part_000\<close>)\<close>

text \<open>\<^verbatim>\<open>e instanceof Error ? e.message : String(e)\<close>\<close>

fun errorMsg :: "thrown \<Rightarrow> string" where
  "errorMsg (ErrorObject nm msg) = msg"
| "errorMsg (OtherValue txt) = txt"

text \<open>
  The \<open>for\<close> loop over \<open>config.beforeNotify\<close>. The result is the returned boolean, the
  notice as the callbacks left it, the trace, and the number of callbacks called so far.
\<close>

fun runCallbacks ::
  "BeforeNotifyCallback list \<Rightarrow> Notice \<Rightarrow> trace \<Rightarrow> nat \<Rightarrow> bool \<times> Notice \<times> trace \<times> nat" where
  "runCallbacks [] notice tr called = (True, notice, tr, called)"
| "runCallbacks (callback # rest) notice tr called =
     (case callback notice of
        (Returned result, notice') \<Rightarrow>
          (if result = JBool False
           then (False, notice', tr @ [Log LDebug NoticeBlocked], Suc called)
           else runCallbacks rest notice' tr (Suc called))
      | (Threw e, notice') \<Rightarrow>
          runCallbacks rest notice' (tr @ [Log LWarn (CallbackFailed (errorMsg e))]) (Suc called))"

definition runBeforeNotifyCallbacks ::
  "Configuration option \<Rightarrow> Notice \<Rightarrow> trace \<Rightarrow> bool \<times> Notice \<times> trace \<times> nat" where
  "runBeforeNotifyCallbacks config notice tr =
     (case config of
        None \<Rightarrow> (True, notice, tr, 0)
      | Some c \<Rightarrow> runCallbacks (beforeNotify c) notice tr 0)"

text \<open>
  The end of \<open>notify\<close>: \<^verbatim>\<open>if (!runBeforeNotifyCallbacks(notice)) return\<close> and then
  \<^verbatim>\<open>sendNotice(notice)\<close>. The first component is the notice handed to \<open>sendNotice\<close>, or
  \<open>None\<close> when \<open>notify\<close> returns without sending.
\<close>

definition notifyFiltered :: "Configuration option \<Rightarrow> Notice \<Rightarrow> trace \<Rightarrow> Notice option \<times> trace" where
  "notifyFiltered config notice tr =
     (case runBeforeNotifyCallbacks config notice tr of
        (ok, notice', tr', called) \<Rightarrow> (if \<not> ok then (None, tr') else (Some notice', tr')))"

section \<open>Transport (\<^verbatim>\<open>src/client.ts\<close>)\<close>

text \<open>
  A response as \<open>handleResponse\<close> reads it: the status, and what \<open>response.json()\<close> (\<open>json\<close>) and
  \<open>response.text()\<close> (\<open>bodyText\<close>) settle to. \<open>fetch\<close> itself settles to a response or is rejected; the
  abort by the timeout timer is the rejection with an \<open>Error\<close> named \<^verbatim>\<open>AbortError\<close>.
\<close>

record Response =
  status :: nat
  json :: "jsvalue settled"
  bodyText :: "string settled"

type_synonym fetch_result = "Response settled"

text \<open>
  The result is the parsed body or \<open>null\<close> (\<open>JNull\<close>). On status 201 the template literal
  of the debug message reads \<open>result.id\<close>, which throws a \<open>TypeError\<close> when the parsed body
  is \<open>null\<close> (or \<open>undefined\<close>, which no JSON text parses to); the message is the one of
  the V8 engine that Node runs on.
\<close>

fun readIdError :: "jsvalue \<Rightarrow> thrown" where
  "readIdError JUndefined =
     ErrorObject ''TypeError'' (''Cannot read properties of undefined (reading '' @ [CHR 0x27] @ ''id'' @ [CHR 0x27] @ '')'')"
| "readIdError v =
     ErrorObject ''TypeError'' (''Cannot read properties of null (reading '' @ [CHR 0x27] @ ''id'' @ [CHR 0x27] @ '')'')"

definition handleResponse :: "Response \<Rightarrow> trace \<Rightarrow> jsvalue settled \<times> trace" where
  "handleResponse response tr =
     (if status response = 201 then
        (case json response of
           Rejected e \<Rightarrow> (Rejected e, tr)
         | Fulfilled result \<Rightarrow>
             (if result = JNull \<or> result = JUndefined
              then (Rejected (readIdError result), tr)
              else (Fulfilled result, tr @ [Log LDebug (NoticeSent result)])))
      else
        (let body = (case bodyText response of Rejected e \<Rightarrow> [] | Fulfilled b \<Rightarrow> b)
         in (Fulfilled JNull,
             tr @ [if status response = 400 then Log LWarn (BadRequest body)
                   else if status response = 401 then Log LError AuthFailed
                   else if status response = 422 then Log LWarn (InvalidPayload body)
                   else if status response = 429 then Log LWarn RateLimited
                   else if status response \<ge> 500 then Log LError (ServerError (status response) body)
                   else Log LError (Unexpected (status response) body)])))"

text \<open>The \<open>catch\<close> block of \<open>send\<close>.\<close>

fun catchSend :: "thrown \<Rightarrow> trace \<Rightarrow> jsvalue \<times> trace" where
  "catchSend (ErrorObject nm msg) tr =
     (if nm = ''AbortError'' then (JNull, tr @ [Log LError RequestTimeout])
      else (JNull, tr @ [Log LError (SendFailed (ErrorObject nm msg))]))"
| "catchSend (OtherValue txt) tr = (JNull, tr @ [Log LError (SendFailed (OtherValue txt))])"

text \<open>
  \<open>JSON.stringify(payload)\<close> throws a \<open>TypeError\<close> when it meets a BigInt, and has a result
  for every other payload of the model: an \<open>undefined\<close> property is left out, a Date and a
  Buffer are written through their \<open>toJSON\<close>. The error block holds strings only, so a
  BigInt can only sit in the context, request or user block.
\<close>

fun hasBigInt :: "jsvalue \<Rightarrow> bool"
  and hasBigIntItems :: "jsvalue list \<Rightarrow> bool"
  and hasBigIntEntries :: "(string \<times> jsvalue) list \<Rightarrow> bool" where
  "hasBigInt (JBigInt n) = True"
| "hasBigInt (JArray items) = hasBigIntItems items"
| "hasBigInt (JObject entries) = hasBigIntEntries entries"
| "hasBigInt JNull = False"
| "hasBigInt JUndefined = False"
| "hasBigInt (JBool b) = False"
| "hasBigInt (JNumber n) = False"
| "hasBigInt (JString s) = False"
| "hasBigInt (JBuffer b) = False"
| "hasBigInt (JDate t) = False"
| "hasBigIntItems [] = False"
| "hasBigIntItems (item # items) = (hasBigInt item \<or> hasBigIntItems items)"
| "hasBigIntEntries [] = False"
| "hasBigIntEntries ((key, v) # entries) = (hasBigInt v \<or> hasBigIntEntries entries)"

definition stringifies :: "NoticePayload \<Rightarrow> bool" where
  "stringifies payload =
     (\<not> hasBigIntEntries (p_context payload)
      \<and> \<not> hasBigIntEntries (p_request payload)
      \<and> \<not> hasBigIntEntries (p_user payload))"

text \<open>
  \<open>send\<close> in two halves around its \<open>await fetch(...)\<close>. \<open>sendBegin\<close> runs up to the call of
  \<open>fetch\<close>: the argument object is built first, with \<open>body: JSON.stringify(payload)\<close>, inside
  the \<open>try\<close>. If that throws, the \<open>catch\<close> block runs and \<open>send\<close> is over with no request
  issued (\<open>Inl\<close>, with the result and the trace); otherwise the request is issued and
  awaited (\<open>Inr\<close>). \<open>sendEnd\<close> is what runs once the request has settled to \<open>outcome\<close>. The
  logger is taken to return normally.
\<close>

definition sendBegin :: "NoticePayload \<Rightarrow> trace \<Rightarrow> (jsvalue \<times> trace) + trace" where
  "sendBegin payload tr =
     (if stringifies payload then Inr (tr @ [Fetch payload])
      else Inl (catchSend (ErrorObject ''TypeError'' ''Do not know how to serialize a BigInt'') tr))"

definition sendEnd :: "fetch_result \<Rightarrow> trace \<Rightarrow> jsvalue \<times> trace" where
  "sendEnd outcome tr =
     (case outcome of
        Fulfilled response \<Rightarrow>
          (case handleResponse response tr of
             (Fulfilled r, tr') \<Rightarrow> (r, tr')
           | (Rejected e, tr') \<Rightarrow> catchSend e tr')
      | Rejected e \<Rightarrow> catchSend e tr)"

definition send :: "fetch_result \<Rightarrow> NoticePayload \<Rightarrow> trace \<Rightarrow> jsvalue \<times> trace" where
  "send outcome payload tr =
     (case sendBegin payload tr of
        Inl done \<Rightarrow> done
      | Inr tr' \<Rightarrow> sendEnd outcome tr')"

definition sendNotice :: "Runtime \<Rightarrow> fetch_result \<Rightarrow> Notice \<Rightarrow> trace \<Rightarrow> jsvalue \<times> trace" where
  "sendNotice rt outcome notice tr = send outcome (toPayload rt notice) tr"

section \<open>Delivery queue (\<open>Worker\<close> of \<^verbatim>\<open>worker.ts\<close>, lines 412 to 579 of \<^verbatim>\<open>src/integrations/express.ts\<close>)\<close>

definition BASE_THROTTLE :: real where
  "BASE_THROTTLE = 1.05"

definition MAX_THROTTLE :: int where
  "MAX_THROTTLE = 100"

text \<open>A flush item carries the \<open>resolve\<close> function of its promise, named here by a number.\<close>

datatype QueueItem = Payload NoticePayload | SHUTDOWN | FLUSH nat

text \<open>
  \<open>processQueue\<close> is an asynchronous function: a call runs until it reaches an \<open>await\<close>
  that has to wait and goes on when the awaited promise settles. Both waits are inside
  \<open>sendWithThrottle\<close>: the \<open>sleep\<close> before the send, and \<open>client.send\<close> itself. A
  suspended call is recorded with the payload it is sending. \<open>AwaitSend\<close> is the wait for
  a send whose request is under way; \<open>AwaitSettled\<close> is the wait for a send that ended
  before any request, with the result its promise already holds.
\<close>

datatype suspension =
    AwaitSleep NoticePayload
  | AwaitSend NoticePayload
  | AwaitSettled NoticePayload jsvalue

text \<open>
  The timers armed by \<open>stop\<close> and \<open>flush\<close>: the re-check of \<open>waitForDrain\<close> (every
  100 ms), the timeout raced by \<open>stop\<close>, the timeout fallback of a flush.
\<close>

datatype timer = TCheck | TStop | TFlush nat

record Worker =
  config :: Configuration
  queue :: "QueueItem list"
  processing :: bool
  shutdown :: bool
  throttle :: int
  suspended :: "suspension list"
  timers :: "timer list"
  effects :: trace

definition newWorker :: "Configuration \<Rightarrow> Worker" where
  "newWorker c =
     \<lparr> config = c, queue = [], processing = False, shutdown = False, throttle = 0,
       suspended = [], timers = [], effects = [] \<rparr>"

text \<open>
  \<open>Math.round((Math.pow(BASE_THROTTLE, this.throttle) - 1) * 1000)\<close>, computed on the
  reals; \<open>round\<close> rounds a half upwards, as \<open>Math.round\<close> does.
\<close>

definition throttleDelay :: "Worker \<Rightarrow> int" where
  "throttleDelay w = round ((BASE_THROTTLE ^ nat (throttle w) - 1) * 1000)"

definition incThrottle :: "Worker \<Rightarrow> Worker" where
  "incThrottle w = w\<lparr>throttle := min (throttle w + 1) MAX_THROTTLE\<rparr>"

definition decThrottle :: "Worker \<Rightarrow> Worker" where
  "decThrottle w = w\<lparr>throttle := max (throttle w - 1) 0\<rparr>"

text \<open>\<open>sendWithThrottle\<close> from the call of \<open>client.send\<close> to the wait for its result.\<close>

definition startSend :: "NoticePayload \<Rightarrow> Worker \<Rightarrow> Worker" where
  "startSend payload w =
     (case sendBegin payload (effects w @ [Send payload]) of
        Inl (result, tr) \<Rightarrow>
          w\<lparr>effects := tr, suspended := suspended w @ [AwaitSettled payload result]\<rparr>
      | Inr tr \<Rightarrow>
          w\<lparr>effects := tr, suspended := suspended w @ [AwaitSend payload]\<rparr>)"

text \<open>\<open>sendWithThrottle\<close> from its start to its first wait.\<close>

definition sendWithThrottle :: "NoticePayload \<Rightarrow> Worker \<Rightarrow> Worker" where
  "sendWithThrottle payload w =
     (if throttle w > 0
      then w\<lparr>effects := effects w @ [Sleep (throttleDelay w)],
             suspended := suspended w @ [AwaitSleep payload]\<rparr>
      else startSend payload w)"

text \<open>
  \<open>sendWithThrottle\<close> after \<open>client.send\<close> has settled: \<open>adjustThrottle\<close> is its last
  statement, \<open>finishSend\<close> the end of a send whose request has settled to \<open>outcome\<close>.
\<close>

definition adjustThrottle :: "jsvalue \<Rightarrow> Worker \<Rightarrow> Worker" where
  "adjustThrottle result w = (if result = JNull then incThrottle w else decThrottle w)"

definition finishSend :: "fetch_result \<Rightarrow> Worker \<Rightarrow> Worker" where
  "finishSend outcome w =
     (case sendEnd outcome (effects w) of
        (result, tr) \<Rightarrow> adjustThrottle result (w\<lparr>effects := tr\<rparr>))"

text \<open>
  The \<open>while\<close> loop of \<open>processQueue\<close> from the top of an iteration, on the items still
  queued, up to the next wait or to the end of the loop.
\<close>

fun drainLoop :: "QueueItem list \<Rightarrow> Worker \<Rightarrow> Worker" where
  "drainLoop [] w = w\<lparr>queue := [], processing := False\<rparr>"
| "drainLoop (SHUTDOWN # rest) w = w\<lparr>queue := rest, processing := False\<rparr>"
| "drainLoop (FLUSH r # rest) w = drainLoop rest (w\<lparr>effects := effects w @ [Resolve r]\<rparr>)"
| "drainLoop (Payload p # rest) w = sendWithThrottle p (w\<lparr>queue := rest\<rparr>)"

definition processQueue :: "Worker \<Rightarrow> Worker" where
  "processQueue w =
     (if processing w \<or> length (queue w) = 0 then w
      else drainLoop (queue w) (w\<lparr>processing := True\<rparr>))"

definition push :: "Runtime \<Rightarrow> Notice \<Rightarrow> Worker \<Rightarrow> bool \<times> Worker" where
  "push rt notice w =
     (if shutdown w then (False, w)
      else if length (queue w) \<ge> maxQueueSize (config w)
      then (False, w\<lparr>effects := effects w @ [Log LWarn QueueFull]\<rparr>)
      else (True, processQueue (w\<lparr>queue := queue w @ [Payload (toPayload rt notice)]\<rparr>)))"

text \<open>
  \<open>stop\<close> up to its \<open>await\<close>. The first \<open>check\<close> of \<open>waitForDrain\<close> runs at once and
  finds the marker just pushed, so it arms the re-check; the race timer is armed next.
  A second call returns at once: its promise is resolved and nothing else happens.
\<close>

definition stop :: "Worker \<Rightarrow> Worker" where
  "stop w =
     (if shutdown w then w\<lparr>effects := effects w @ [StopResolved]\<rparr>
      else w\<lparr>shutdown := True, queue := queue w @ [SHUTDOWN],
             timers := timers w @ [TCheck, TStop]\<rparr>)"

definition flush :: "nat \<Rightarrow> Worker \<Rightarrow> Worker" where
  "flush r w =
     (let w1 = processQueue (w\<lparr>queue := queue w @ [FLUSH r]\<rparr>)
      in w1\<lparr>timers := timers w1 @ [TFlush r]\<rparr>)"

text \<open>
  What can happen to a worker: a call of \<open>push\<close>, \<open>stop\<close> or \<open>flush\<close>, the end of the
  sleep or of the send of the suspended call number \<open>i\<close>, and the firing of an armed
  timer. An event that is not enabled leaves the worker as it is. JavaScript runs one
  piece of code at a time, so every event is a step of its own. When a request settles,
  the rest of \<open>send\<close>, the throttle update and the next turns of the loop are taken as one
  step: a call that comes in between them finds \<open>processing\<close> set and only appends to the
  queue, as the same call does just before the request settles. A send that ended before
  any request is awaited all the same, so the call that made it goes on in a later step.
\<close>

datatype event =
    Push Notice
  | Stop
  | Flush nat
  | SleepDone nat
  | SendDone nat fetch_result
  | FlushTimer nat
  | StopTimer
  | DrainCheck

definition dropAt :: "nat \<Rightarrow> 'a list \<Rightarrow> 'a list" where
  "dropAt i xs = take i xs @ drop (Suc i) xs"

definition sleepDone :: "nat \<Rightarrow> Worker \<Rightarrow> Worker" where
  "sleepDone i w =
     (if i < length (suspended w) then
        (case suspended w ! i of
           AwaitSleep p \<Rightarrow> startSend p (w\<lparr>suspended := dropAt i (suspended w)\<rparr>)
         | AwaitSend p \<Rightarrow> w
         | AwaitSettled p result \<Rightarrow> w)
      else w)"

text \<open>
  When the promise of \<open>client.send\<close> settles, \<open>sendWithThrottle\<close> adjusts the throttle and
  returns, and the loop of \<open>processQueue\<close> tests \<open>this.queue.length > 0\<close> again. For a
  send that ended before any request the promise already holds its result, and the
  outcome carried by the event is not looked at.
\<close>

definition sendDone :: "nat \<Rightarrow> fetch_result \<Rightarrow> Worker \<Rightarrow> Worker" where
  "sendDone i outcome w =
     (if i < length (suspended w) then
        (case suspended w ! i of
           AwaitSleep p \<Rightarrow> w
         | AwaitSend p \<Rightarrow>
             (let w1 = finishSend outcome (w\<lparr>suspended := dropAt i (suspended w)\<rparr>)
              in drainLoop (queue w1) w1)
         | AwaitSettled p result \<Rightarrow>
             (let w1 = adjustThrottle result (w\<lparr>suspended := dropAt i (suspended w)\<rparr>)
              in drainLoop (queue w1) w1))
      else w)"

definition flushTimer :: "nat \<Rightarrow> Worker \<Rightarrow> Worker" where
  "flushTimer r w =
     (if TFlush r \<in> set (timers w)
      then w\<lparr>timers := remove1 (TFlush r) (timers w), effects := effects w @ [Resolve r]\<rparr>
      else w)"

definition stopTimer :: "Worker \<Rightarrow> Worker" where
  "stopTimer w =
     (if TStop \<in> set (timers w)
      then w\<lparr>timers := remove1 TStop (timers w), effects := effects w @ [StopResolved]\<rparr>
      else w)"

text \<open>The \<open>check\<close> closure of \<open>waitForDrain\<close>, run by its 100 ms timer.\<close>

definition drainCheck :: "Worker \<Rightarrow> Worker" where
  "drainCheck w =
     (if TCheck \<in> set (timers w) then
        (if length (queue w) = 0 \<and> \<not> processing w
         then w\<lparr>timers := remove1 TCheck (timers w), effects := effects w @ [StopResolved]\<rparr>
         else w)
      else w)"

fun step :: "Runtime \<Rightarrow> event \<Rightarrow> Worker \<Rightarrow> Worker" where
  "step rt (Push notice) w = snd (push rt notice w)"
| "step rt Stop w = stop w"
| "step rt (Flush r) w = flush r w"
| "step rt (SleepDone i) w = sleepDone i w"
| "step rt (SendDone i outcome) w = sendDone i outcome w"
| "step rt (FlushTimer r) w = flushTimer r w"
| "step rt StopTimer w = stopTimer w"
| "step rt DrainCheck w = drainCheck w"

fun run :: "Runtime \<Rightarrow> event list \<Rightarrow> Worker \<Rightarrow> Worker" where
  "run rt [] w = w"
| "run rt (e # es) w = run rt es (step rt e w)"

text \<open>The payloads of the notices that \<open>push\<close> accepted (returned \<open>true\<close> for) during a run.\<close>

fun accepted :: "Runtime \<Rightarrow> event list \<Rightarrow> Worker \<Rightarrow> NoticePayload list" where
  "accepted rt [] w = []"
| "accepted rt (Push notice # es) w =
     (if fst (push rt notice w) then toPayload rt notice # accepted rt es (step rt (Push notice) w)
      else accepted rt es (step rt (Push notice) w))"
| "accepted rt (e # es) w = accepted rt es (step rt e w)"

text \<open>The payloads still waiting: of a call suspended in its sleep, then of the queue.\<close>

fun sleeping :: "suspension list \<Rightarrow> NoticePayload list" where
  "sleeping [] = []"
| "sleeping (AwaitSleep p # ss) = p # sleeping ss"
| "sleeping (AwaitSend p # ss) = sleeping ss"
| "sleeping (AwaitSettled p result # ss) = sleeping ss"

fun inFlight :: "suspension list \<Rightarrow> NoticePayload list" where
  "inFlight [] = []"
| "inFlight (AwaitSleep p # ss) = inFlight ss"
| "inFlight (AwaitSend p # ss) = p # inFlight ss"
| "inFlight (AwaitSettled p result # ss) = inFlight ss"

fun payloads :: "QueueItem list \<Rightarrow> NoticePayload list" where
  "payloads [] = []"
| "payloads (Payload p # q) = p # payloads q"
| "payloads (SHUTDOWN # q) = payloads q"
| "payloads (FLUSH r # q) = payloads q"

text \<open>
  Letting the pending work finish: for each outcome, the sleep of the suspended call
  ends (if it is sleeping) and then its send settles, its request with that outcome.
\<close>

fun completions :: "fetch_result list \<Rightarrow> event list" where
  "completions [] = []"
| "completions (outcome # os) = SleepDone 0 # SendDone 0 outcome # completions os"

section \<open>Delivery queue: invariant\<close>

text \<open>No payload is queued behind a shutdown marker.\<close>

fun ordered :: "QueueItem list \<Rightarrow> bool" where
  "ordered [] = True"
| "ordered (SHUTDOWN # q) = (payloads q = [])"
| "ordered (Payload p # q) = ordered q"
| "ordered (FLUSH r # q) = ordered q"

text \<open>
  What every reachable worker satisfies: at most one call of \<open>processQueue\<close> is suspended,
  and one is exactly when \<open>processing\<close> is set; an idle worker has no payload queued; a
  queued shutdown marker means \<open>shutdown\<close> is set and has no payload behind it; the
  throttle level is between 0 and \<open>MAX_THROTTLE\<close>.
\<close>

definition wellFormed :: "Worker \<Rightarrow> bool" where
  "wellFormed w =
     (length (suspended w) \<le> 1
      \<and> (processing w = (suspended w \<noteq> []))
      \<and> (\<not> processing w \<longrightarrow> payloads (queue w) = [])
      \<and> (SHUTDOWN \<in> set (queue w) \<longrightarrow> shutdown w)
      \<and> ordered (queue w)
      \<and> 0 \<le> throttle w \<and> throttle w \<le> MAX_THROTTLE)"

text \<open>
  The payloads a worker has taken on, in order: those already handed to the transport,
  the one whose send is waiting for its sleep, those still queued.
\<close>

definition waiting :: "Worker \<Rightarrow> NoticePayload list" where
  "waiting w = sent (effects w) @ sleeping (suspended w) @ payloads (queue w)"

text \<open>
  A request has been issued for exactly the payloads handed to the transport that
  \<open>JSON.stringify\<close> has a result for, in the same order.
\<close>

definition requestsIssued :: "Worker \<Rightarrow> bool" where
  "requestsIssued w = (fetched (effects w) = filter stringifies (sent (effects w)))"


text \<open>The payloads not yet through: the suspended call's, and those queued.\<close>

definition unfinished :: "Worker \<Rightarrow> nat" where
  "unfinished w = length (suspended w) + length (payloads (queue w))"

section \<open>Example values\<close>



definition exampleRuntime :: Runtime where
  "exampleRuntime = \<lparr> VERSION = ''1.0.0'', process_version = ''v20.0.0'' \<rparr>"

definition exampleNotice :: "string \<Rightarrow> Notice" where
  "exampleNotice msg =
     createNotice ''2024-01-01T00:00:00.000Z''
       \<lparr> err_name = ''Boom'', err_message = msg, err_stack = None \<rparr>
       \<lparr> o_context = None, o_request = None, o_user = None, o_fingerprint = None,
         o_tags = None, o_environment = None, o_rootPath = None, o_appName = None,
         o_revision = None \<rparr>"

text \<open>A notice whose context holds a BigInt, which \<open>sanitize\<close> lets through.\<close>

definition bigIntNotice :: Notice where
  "bigIntNotice =
     createNotice ''2024-01-01T00:00:00.000Z''
       \<lparr> err_name = ''Boom'', err_message = ''big'', err_stack = None \<rparr>
       \<lparr> o_context = Some [(''count'', JBigInt 1)], o_request = None, o_user = None,
         o_fingerprint = None, o_tags = None, o_environment = None, o_rootPath = None,
         o_appName = None, o_revision = None \<rparr>"

definition exampleConfig :: "nat option \<Rightarrow> Configuration" where
  "exampleConfig n =
     newConfiguration
       \<lparr> opt_timeout = None, opt_beforeNotify = None, opt_maxQueueSize = n,
         opt_shutdownTimeout = None \<rparr>"

text \<open>A 201 response with the body of the wire protocol, and a 503 response.\<close>

definition created :: Response where
  "created =
     \<lparr> status = 201,
       json = Fulfilled (JObject [(''id'', JNumber 1), (''problem_id'', JNumber 2)]),
       bodyText = Fulfilled [] \<rparr>"

definition unavailable :: Response where
  "unavailable =
     \<lparr> status = 503,
       json = Rejected (ErrorObject ''SyntaxError'' ''Unexpected token''),
       bodyText = Fulfilled ''down'' \<rparr>"


text \<open>
  Four callbacks: one returns nothing, one throws a \<open>TypeError\<close>, one returns \<open>false\<close>,
  one adds a tag to the notice and returns \<open>true\<close>.
\<close>

definition passes :: BeforeNotifyCallback where
  "passes notice = (Returned JUndefined, notice)"

definition throws :: BeforeNotifyCallback where
  "throws notice = (Threw (ErrorObject ''TypeError'' ''oops''), notice)"

definition vetoes :: BeforeNotifyCallback where
  "vetoes notice = (Returned (JBool False), notice)"

definition tagging :: BeforeNotifyCallback where
  "tagging notice = (Returned (JBool True), notice\<lparr>tags := tags notice @ [''seen'']\<rparr>)"


text \<open>
  A run: two notices are pushed, the first send fails with a 503, \<open>stop\<close> is called, a
  third push and a flush follow, the throttle sleep ends and the second send succeeds.
\<close>

definition exampleEvents :: "event list" where
  "exampleEvents =
     [Push (exampleNotice ''a''), Push (exampleNotice ''b''), SendDone 0 (Fulfilled unavailable),
      Stop, Push (exampleNotice ''c''), Flush 7, SleepDone 0, SendDone 0 (Fulfilled created)]"


text \<open>
  A run in which the first notice pushed holds a BigInt: its send ends before any request,
  the waiting call goes on, and the second notice is sent after the throttle sleep.
\<close>

definition bigIntEvents :: "event list" where
  "bigIntEvents =
     [Push bigIntNotice, Push (exampleNotice ''b''), SendDone 0 (Fulfilled created),
      SleepDone 0, SendDone 0 (Fulfilled created)]"

text \<open>
  A worker with room for one item, after two pushes: the first payload is being sent and
  the second fills the queue.
\<close>

definition busyWorker :: Worker where
  "busyWorker = run exampleRuntime [Push (exampleNotice ''a''), Push (exampleNotice ''b'')]
     (newWorker (exampleConfig (Some 1)))"


section \<open>Sanitizer: properties\<close>



text \<open>
  An own property named \<^verbatim>\<open>__proto__\<close> does not reach the result, whether or not the key
  list filters it, and a buffer under that name makes the whole object a buffer for
  \<open>process\<close>.
\<close>

lemma sanitize_proto_key:
  "sanitize (newSanitizeFilter [''proto'']) (JObject [(''__proto__'', JString ''s'')]) = JObject []"
  "sanitize this (JObject [(''__proto__'', JBuffer b), (''a'', JNull)]) = JString ''[Buffer]''"
  by (simp_all add: sanitize_def MAX_DEPTH_def)

lemma sanitize_string: "sanitize this (JString s) = JString (truncateString s)"
  by (simp add: sanitize_def MAX_DEPTH_def)

lemma truncateString_short: "length s \<le> 10000 \<Longrightarrow> truncateString s = s"
  by (simp add: truncateString_def TRUNCATE_LIMIT_def)

lemma truncateString_long:
  "length s > 10000 \<Longrightarrow> truncateString s = take 9987 s @ ''...[TRUNCATED]''"
  by (simp add: truncateString_def TRUNCATE_LIMIT_def)

lemma truncateString_long_length:
  "length s > 10000 \<Longrightarrow> length (truncateString s) = 10001"
  by (simp add: truncateString_long)

text \<open>
  Claim C1: a string longer than 10000 is sanitized to a string of length exactly 10000
  that ends with the truncation marker, and a string of at most 10000 is returned as it
  is. The second half holds (\<open>truncateString_short\<close>). The first does not: the code keeps
  \<open>TRUNCATE_LIMIT - 13\<close> characters and appends the marker \<^verbatim>\<open>...[TRUNCATED]\<close>, which has 14
  characters, so every truncated string has length 10001 (\<open>truncateString_long_length\<close>).
  The theorem evaluates \<open>sanitize\<close> on the string of 10001 letters x.
\<close>

theorem sanitize_overlong_string:
  "sanitize (newSanitizeFilter []) (JString (replicate 10001 CHR ''x''))
     = JString (replicate 9987 CHR ''x'' @ ''...[TRUNCATED]'')
   \<and> length (replicate 9987 CHR ''x'' @ ''...[TRUNCATED]'') = 10001"
  by (simp add: sanitize_string truncateString_def TRUNCATE_LIMIT_def)
















section \<open>Notice builder: properties\<close>

lemma parseBacktrace_length: "length (parseBacktrace stack rootPath) \<le> 100"
  by (simp add: parseBacktrace_def MAX_BACKTRACE_LINES_def)

lemma parseBacktrace_marker_only:
  "frame \<in> set (parseBacktrace (Some stack) None) \<Longrightarrow>
     startsWith frame ''at '' \<and> (\<exists>line \<in> set (split (CHR 0x0A) stack). frame = trim line)"
  by (auto simp: parseBacktrace_def cleanBacktraceLine_def dest!: in_set_takeD split: if_splits)

text \<open>
  Claim C2: the backtrace keeps only the lines with the frame marker, at most 100 of
  them, and replaces every occurrence of the root path in a kept line, so that no frame
  contains the root path. The first two parts hold (\<open>parseBacktrace_marker_only\<close>,
  \<open>parseBacktrace_length\<close>). \<open>cleanBacktraceLine\<close> calls \<open>replace\<close> with a string pattern,
  which replaces the first occurrence only: for the root path \<^verbatim>\<open>/app\<close> the frame of a file
  under \<^verbatim>\<open>/app/lib/app\<close> still contains \<^verbatim>\<open>/app\<close>. The theorem evaluates \<open>createNotice\<close>
  there.
\<close>

theorem createNotice_root_path_remains:
  "backtrace (createNotice ''2024-01-01T00:00:00.000Z''
      \<lparr> err_name = ''Error'', err_message = ''boom'',
        err_stack = Some (''Error: boom'' @ [CHR 0x0A] @ ''    at run (/app/lib/app/index.js:1:1)'') \<rparr>
      \<lparr> o_context = None, o_request = None, o_user = None, o_fingerprint = None,
        o_tags = None, o_environment = None, o_rootPath = Some ''/app'',
        o_appName = None, o_revision = None \<rparr>)
     = [''at run ([PROJECT_ROOT]/lib/app/index.js:1:1)'']
   \<and> stringIncludes ''at run ([PROJECT_ROOT]/lib/app/index.js:1:1)'' ''/app''"
  by (simp add: createNotice_def parseBacktrace_def MAX_BACKTRACE_LINES_def
      cleanBacktraceLine_def trim_def startsWith_def isWhiteSpace_def)

lemma spread_single: "spread c [(k, v)] = AList.update k v c" "spread c [] = c"
  by (simp_all add: spread_def)

text \<open>
  Claim C7: \<open>toPayload\<close> leaves the tags field out when the tag list of the notice is empty
  and gives it as that non-empty list otherwise; the environment, the application name
  and the revision are put into the context block under the keys \<open>environment\<close>,
  \<open>app_name\<close> and \<open>revision\<close> only when the notice has them (an absent or empty value adds
  nothing), every other key of the context is as in the notice, and with none of the
  three set the context block is the context of the notice.
\<close>

theorem toPayload_tags_and_context:
  "e_tags (p_error (toPayload rt n)) = (if tags n = [] then None else Some (tags n))
   \<and> e_tags (p_error (toPayload rt n)) \<noteq> Some []
   \<and> map_of (p_context (toPayload rt n)) k =
       (if k = ''revision'' \<and> truthy (revision n) then Some (JString (the (revision n)))
        else if k = ''app_name'' \<and> truthy (appName n) then Some (JString (the (appName n)))
        else if k = ''environment'' \<and> truthy (environment n)
             then Some (JString (the (environment n)))
        else map_of (contextData n) k)
   \<and> (environment n = None \<and> appName n = None \<and> revision n = None
        \<longrightarrow> p_context (toPayload rt n) = contextData n)"
  by (simp add: toPayload_def spread_single update_conv')

theorem toPayload_tags_and_context_witness:
  "e_tags (p_error (toPayload \<lparr>VERSION = ''1.0.0'', process_version = ''v20.0.0''\<rparr>
      (createNotice ''2024-01-01T00:00:00.000Z''
         \<lparr> err_name = ''Boom'', err_message = ''bad thing'', err_stack = None \<rparr>
         \<lparr> o_context = Some [(''orderId'', JNumber 42)], o_request = None, o_user = None,
           o_fingerprint = None, o_tags = None, o_environment = None, o_rootPath = None,
           o_appName = None, o_revision = None \<rparr>))) = None
   \<and> p_context (toPayload \<lparr>VERSION = ''1.0.0'', process_version = ''v20.0.0''\<rparr>
      (createNotice ''2024-01-01T00:00:00.000Z''
         \<lparr> err_name = ''Boom'', err_message = ''bad thing'', err_stack = None \<rparr>
         \<lparr> o_context = Some [(''orderId'', JNumber 42)], o_request = None, o_user = None,
           o_fingerprint = None, o_tags = None, o_environment = None, o_rootPath = None,
           o_appName = None, o_revision = None \<rparr>)) = [(''orderId'', JNumber 42)]"
  using toPayload_tags_and_context [of "\<lparr>VERSION = ''1.0.0'', process_version = ''v20.0.0''\<rparr>"
      "createNotice ''2024-01-01T00:00:00.000Z''
         \<lparr> err_name = ''Boom'', err_message = ''bad thing'', err_stack = None \<rparr>
         \<lparr> o_context = Some [(''orderId'', JNumber 42)], o_request = None, o_user = None,
           o_fingerprint = None, o_tags = None, o_environment = None, o_rootPath = None,
           o_appName = None, o_revision = None \<rparr>" "''orderId''"]
  by (simp add: createNotice_def)

section \<open>Delivery queue: the drain loop\<close>

lemma fetched_append: "fetched (a @ b) = fetched a @ fetched b"
  by (induction a rule: fetched.induct) simp_all

lemma sent_append: "sent (a @ b) = sent a @ sent b"
  by (induction a rule: sent.induct) simp_all

lemma startSend_eq:
  "startSend p w =
     (if stringifies p
      then w\<lparr>effects := effects w @ [Send p, Fetch p],
             suspended := suspended w @ [AwaitSend p]\<rparr>
      else w\<lparr>effects := effects w
               @ [Send p, Log LError (SendFailed
                    (ErrorObject ''TypeError'' ''Do not know how to serialize a BigInt''))],
             suspended := suspended w @ [AwaitSettled p JNull]\<rparr>)"
  by (simp add: startSend_def sendBegin_def)

lemma payloads_append: "payloads (a @ b) = payloads a @ payloads b"
  by (induction a rule: payloads.induct) simp_all

lemma sleeping_append: "sleeping (a @ b) = sleeping a @ sleeping b"
  by (induction a rule: sleeping.induct) simp_all

lemma ordered_payloads_nil: "payloads q = [] \<Longrightarrow> ordered q"
  by (induction q rule: ordered.induct) simp_all

lemma ordered_snoc_marker:
  "ordered q \<Longrightarrow> payloads [x] = [] \<Longrightarrow> ordered (q @ [x])"
  by (induction q rule: ordered.induct) (simp_all add: payloads_append ordered_payloads_nil)

lemma ordered_snoc_payload:
  "SHUTDOWN \<notin> set q \<Longrightarrow> ordered (q @ [Payload p])"
  by (induction q rule: ordered.induct) simp_all

lemma drainLoop_fields:
  "config (drainLoop q w) = config w" "shutdown (drainLoop q w) = shutdown w"
  "throttle (drainLoop q w) = throttle w" "timers (drainLoop q w) = timers w"
  by (induction q w rule: drainLoop.induct) (simp_all add: sendWithThrottle_def startSend_eq)

lemma drainLoop_queue_suffix: "\<exists>ys. q = ys @ queue (drainLoop q w)"
proof (induction q w rule: drainLoop.induct)
  case (3 r rest w)
  then obtain ys where "rest = ys @ queue (drainLoop rest (w\<lparr>effects := effects w @ [Resolve r]\<rparr>))"
    by blast
  then have "FLUSH r # rest = (FLUSH r # ys) @ queue (drainLoop (FLUSH r # rest) w)"
    by simp
  then show ?case by blast
next
  case (4 p rest w)
  have "Payload p # rest = [Payload p] @ queue (drainLoop (Payload p # rest) w)"
    by (simp add: sendWithThrottle_def startSend_eq)
  then show ?case by blast
next
  case (2 rest w)
  have "SHUTDOWN # rest = [SHUTDOWN] @ queue (drainLoop (SHUTDOWN # rest) w)" by simp
  then show ?case by blast
qed simp

lemma drainLoop_queue_set: "set (queue (drainLoop q w)) \<subseteq> set q"
proof -
  obtain ys where "q = ys @ queue (drainLoop q w)" using drainLoop_queue_suffix by blast
  then have "set q = set ys \<union> set (queue (drainLoop q w))" by (metis set_append)
  then show ?thesis by blast
qed

lemma drainLoop_ordered: "ordered q \<Longrightarrow> ordered (queue (drainLoop q w))"
  by (induction q w rule: drainLoop.induct)
     (simp_all add: sendWithThrottle_def startSend_eq ordered_payloads_nil)

lemma drainLoop_suspended:
  "suspended w = [] \<Longrightarrow> processing w \<Longrightarrow> ordered q \<Longrightarrow>
     length (suspended (drainLoop q w)) \<le> 1
     \<and> (processing (drainLoop q w) = (suspended (drainLoop q w) \<noteq> []))
     \<and> (\<not> processing (drainLoop q w) \<longrightarrow> payloads (queue (drainLoop q w)) = [])
     \<and> length (suspended (drainLoop q w)) + length (payloads (queue (drainLoop q w)))
         = length (payloads q)"
  by (induction q w rule: drainLoop.induct) (simp_all add: sendWithThrottle_def startSend_eq)

lemma drainLoop_waiting:
  "suspended w = [] \<Longrightarrow> ordered q \<Longrightarrow>
     waiting (drainLoop q w) = sent (effects w) @ payloads q"
  by (induction q w rule: drainLoop.induct)
     (simp_all add: waiting_def sendWithThrottle_def startSend_eq sent_append)


section \<open>Delivery queue: every operation keeps the invariant\<close>

lemma processQueue_wellFormed:
  assumes "length (suspended w) \<le> 1" "processing w = (suspended w \<noteq> [])"
    "SHUTDOWN \<in> set (queue w) \<longrightarrow> shutdown w" "ordered (queue w)"
    "0 \<le> throttle w" "throttle w \<le> MAX_THROTTLE"
  shows "wellFormed (processQueue w)"
proof (cases "processing w \<or> length (queue w) = 0")
  case True
  then have "processQueue w = w" by (simp add: processQueue_def)
  with assms True show ?thesis by (auto simp: wellFormed_def)
next
  case False
  then have pq: "processQueue w = drainLoop (queue w) (w\<lparr>processing := True\<rparr>)"
    by (simp add: processQueue_def)
  from False assms(2) have susp: "suspended (w\<lparr>processing := True\<rparr>) = []" by simp
  have proc: "processing (w\<lparr>processing := True\<rparr>)" by simp
  note d = drainLoop_suspended [OF susp proc assms(4)]
  have "SHUTDOWN \<in> set (queue (processQueue w)) \<longrightarrow> shutdown (processQueue w)"
    using drainLoop_queue_set [of "queue w" "w\<lparr>processing := True\<rparr>"] assms(3)
    by (auto simp: pq drainLoop_fields)
  moreover have "ordered (queue (processQueue w))"
    by (simp add: pq drainLoop_ordered assms(4))
  ultimately show ?thesis
    using d assms(5,6) by (simp add: wellFormed_def pq drainLoop_fields)
qed

lemma processQueue_waiting:
  assumes "processing w = (suspended w \<noteq> [])" "ordered (queue w)"
  shows "waiting (processQueue w) = waiting w"
proof (cases "processing w \<or> length (queue w) = 0")
  case True
  then show ?thesis by (simp add: processQueue_def)
next
  case False
  then have pq: "processQueue w = drainLoop (queue w) (w\<lparr>processing := True\<rparr>)"
    by (simp add: processQueue_def)
  from False assms(1) have susp: "suspended (w\<lparr>processing := True\<rparr>) = []" by simp
  from False assms(1) have "suspended w = []" by simp
  then show ?thesis
    using drainLoop_waiting [OF susp assms(2)] by (simp add: pq waiting_def)
qed

lemma processQueue_fields:
  "config (processQueue w) = config w" "shutdown (processQueue w) = shutdown w"
  "throttle (processQueue w) = throttle w" "timers (processQueue w) = timers w"
  by (simp_all add: processQueue_def drainLoop_fields)

lemma push_wellFormed: "wellFormed w \<Longrightarrow> wellFormed (snd (push rt notice w))"
proof -
  assume wf: "wellFormed w"
  show ?thesis
  proof (cases "shutdown w \<or> length (queue w) \<ge> maxQueueSize (config w)")
    case True
    with wf show ?thesis by (auto simp: push_def wellFormed_def)
  next
    case False
    let ?w1 = "w\<lparr>queue := queue w @ [Payload (toPayload rt notice)]\<rparr>"
    from False wf have noshut: "SHUTDOWN \<notin> set (queue w)" by (auto simp: wellFormed_def)
    have "wellFormed (processQueue ?w1)"
      using wf noshut
      by (intro processQueue_wellFormed) (auto simp: wellFormed_def ordered_snoc_payload)
    with False show ?thesis by (simp add: push_def)
  qed
qed

lemma push_waiting:
  "wellFormed w \<Longrightarrow>
     waiting (snd (push rt notice w))
       = waiting w @ (if fst (push rt notice w) then [toPayload rt notice] else [])"
proof -
  assume wf: "wellFormed w"
  show ?thesis
  proof (cases "shutdown w \<or> length (queue w) \<ge> maxQueueSize (config w)")
    case True
    then show ?thesis by (auto simp: push_def waiting_def sent_append)
  next
    case False
    let ?w1 = "w\<lparr>queue := queue w @ [Payload (toPayload rt notice)]\<rparr>"
    from False wf have noshut: "SHUTDOWN \<notin> set (queue w)" by (auto simp: wellFormed_def)
    have "waiting (processQueue ?w1) = waiting ?w1"
      using wf noshut by (intro processQueue_waiting) (auto simp: wellFormed_def ordered_snoc_payload)
    with False show ?thesis by (simp add: push_def waiting_def payloads_append)
  qed
qed

lemma stop_wellFormed: "wellFormed w \<Longrightarrow> wellFormed (stop w)"
  by (auto simp: stop_def wellFormed_def payloads_append ordered_snoc_marker)

lemma stop_waiting: "waiting (stop w) = waiting w"
  by (simp add: stop_def waiting_def payloads_append sent_append)

lemma flush_wellFormed: "wellFormed w \<Longrightarrow> wellFormed (flush r w)"
proof -
  assume wf: "wellFormed w"
  let ?w1 = "w\<lparr>queue := queue w @ [FLUSH r]\<rparr>"
  have "wellFormed (processQueue ?w1)"
    using wf by (intro processQueue_wellFormed) (auto simp: wellFormed_def ordered_snoc_marker)
  then show ?thesis by (simp add: flush_def Let_def wellFormed_def)
qed

lemma flush_waiting: "wellFormed w \<Longrightarrow> waiting (flush r w) = waiting w"
proof -
  assume wf: "wellFormed w"
  let ?w1 = "w\<lparr>queue := queue w @ [FLUSH r]\<rparr>"
  have "waiting (processQueue ?w1) = waiting ?w1"
    using wf by (intro processQueue_waiting) (auto simp: wellFormed_def ordered_snoc_marker)
  then show ?thesis by (simp add: flush_def Let_def waiting_def payloads_append)
qed

lemma one_suspended:
  "length ss \<le> 1 \<Longrightarrow> i < length ss \<Longrightarrow> i = 0 \<and> ss = [ss ! 0] \<and> dropAt 0 ss = []"
  by (cases ss) (auto simp: dropAt_def)

lemma sleepDone_wellFormed: "wellFormed w \<Longrightarrow> wellFormed (sleepDone i w)"
proof (cases "i < length (suspended w)")
  case False
  assume "wellFormed w"
  with False show ?thesis by (simp add: sleepDone_def)
next
  case True
  assume wf: "wellFormed w"
  then have "length (suspended w) \<le> 1" by (simp add: wellFormed_def)
  from one_suspended [OF this True] wf show ?thesis
    by (cases "suspended w ! 0") (auto simp: sleepDone_def startSend_eq wellFormed_def)
qed

lemma sleepDone_waiting: "wellFormed w \<Longrightarrow> waiting (sleepDone i w) = waiting w"
proof (cases "i < length (suspended w)")
  case False
  then show ?thesis by (simp add: sleepDone_def)
next
  case True
  assume wf: "wellFormed w"
  then have "length (suspended w) \<le> 1" by (simp add: wellFormed_def)
  from one_suspended [OF this True] have i: "i = 0" and ss: "suspended w = [suspended w ! 0]"
    and d: "dropAt 0 (suspended w) = []" by simp_all
  show ?thesis
  proof (cases "suspended w ! 0")
    case (AwaitSend p)
    with i True show ?thesis by (simp add: sleepDone_def)
  next
    case (AwaitSettled p result)
    with i True show ?thesis by (simp add: sleepDone_def)
  next
    case (AwaitSleep p)
    with ss have "suspended w = [AwaitSleep p]" by simp
    with i True d AwaitSleep show ?thesis
      by (simp add: sleepDone_def startSend_eq waiting_def sent_append)
  qed
qed


lemma logged_only_fetched:
  "fetched (snd (sendEnd outcome tr)) = fetched tr"
proof -
  have c: "fetched (snd (catchSend e t)) = fetched t" for e t
    by (cases e) (simp_all add: fetched_append)
  show ?thesis
    by (cases outcome)
       (auto simp: sendEnd_def handleResponse_def Let_def fetched_append c
          split: settled.splits prod.splits)
qed

lemma logged_only_sent:
  "sent (snd (sendEnd outcome tr)) = sent tr"
proof -
  have c: "sent (snd (catchSend e t)) = sent t" for e t
    by (cases e) (simp_all add: sent_append)
  show ?thesis
    by (cases outcome)
       (auto simp: sendEnd_def handleResponse_def Let_def sent_append c
          split: settled.splits prod.splits)
qed

lemma adjustThrottle_fields:
  "queue (adjustThrottle result w) = queue w" "suspended (adjustThrottle result w) = suspended w"
  "processing (adjustThrottle result w) = processing w" "shutdown (adjustThrottle result w) = shutdown w"
  "config (adjustThrottle result w) = config w" "timers (adjustThrottle result w) = timers w"
  "effects (adjustThrottle result w) = effects w"
  by (simp_all add: adjustThrottle_def incThrottle_def decThrottle_def)

lemma adjustThrottle_throttle:
  "throttle (adjustThrottle result w) =
     (if result = JNull then min (throttle w + 1) MAX_THROTTLE else max (throttle w - 1) 0)"
  by (simp add: adjustThrottle_def incThrottle_def decThrottle_def)

lemma adjustThrottle_throttle_bounds:
  "0 \<le> throttle w \<Longrightarrow> throttle w \<le> MAX_THROTTLE \<Longrightarrow>
     0 \<le> throttle (adjustThrottle result w) \<and> throttle (adjustThrottle result w) \<le> MAX_THROTTLE"
  by (simp add: adjustThrottle_throttle MAX_THROTTLE_def)

lemma finishSend_fields:
  "queue (finishSend outcome w) = queue w" "suspended (finishSend outcome w) = suspended w"
  "processing (finishSend outcome w) = processing w" "shutdown (finishSend outcome w) = shutdown w"
  "config (finishSend outcome w) = config w" "timers (finishSend outcome w) = timers w"
  "fetched (effects (finishSend outcome w)) = fetched (effects w)"
  "sent (effects (finishSend outcome w)) = sent (effects w)"
  using logged_only_fetched [of outcome "effects w"] logged_only_sent [of outcome "effects w"]
  by (auto simp: finishSend_def adjustThrottle_fields split: prod.splits)

lemma finishSend_throttle:
  "throttle (finishSend outcome w) =
     (if fst (sendEnd outcome (effects w)) = JNull then min (throttle w + 1) MAX_THROTTLE
      else max (throttle w - 1) 0)"
  by (auto simp: finishSend_def adjustThrottle_throttle split: prod.splits)

lemma finishSend_throttle_bounds:
  "0 \<le> throttle w \<Longrightarrow> throttle w \<le> MAX_THROTTLE \<Longrightarrow>
     0 \<le> throttle (finishSend outcome w) \<and> throttle (finishSend outcome w) \<le> MAX_THROTTLE"
  by (simp add: finishSend_throttle MAX_THROTTLE_def)

lemma sendDone_wellFormed: "wellFormed w \<Longrightarrow> wellFormed (sendDone i outcome w)"
proof (cases "i < length (suspended w)")
  case False
  assume "wellFormed w"
  with False show ?thesis by (simp add: sendDone_def)
next
  case True
  assume wf: "wellFormed w"
  then have "length (suspended w) \<le> 1" by (simp add: wellFormed_def)
  from one_suspended [OF this True] have i: "i = 0" and d: "dropAt 0 (suspended w) = []"
    by simp_all
  show ?thesis
  proof (cases "suspended w ! 0")
    case (AwaitSleep p)
    with i True wf show ?thesis by (simp add: sendDone_def)
  next
    case (AwaitSend p)
    let ?w1 = "finishSend outcome (w\<lparr>suspended := []\<rparr>)"
    from wf True have proc: "processing w" by (auto simp: wellFormed_def)
    have sd: "sendDone i outcome w = drainLoop (queue ?w1) ?w1"
      using i True d AwaitSend by (simp add: sendDone_def Let_def)
    have s1: "suspended ?w1 = []" and p1: "processing ?w1" and o1: "ordered (queue ?w1)"
      using wf proc by (simp_all add: finishSend_fields wellFormed_def)
    note dl = drainLoop_suspended [OF s1 p1 o1]
    have tb: "0 \<le> throttle ?w1 \<and> throttle ?w1 \<le> MAX_THROTTLE"
      using wf by (intro finishSend_throttle_bounds) (simp_all add: wellFormed_def)
    have "SHUTDOWN \<in> set (queue (drainLoop (queue ?w1) ?w1)) \<longrightarrow> shutdown w"
      using drainLoop_queue_set [of "queue ?w1" ?w1] wf
      by (auto simp: finishSend_fields wellFormed_def)
    then show ?thesis
      using dl tb drainLoop_ordered [OF o1, of ?w1]
      by (simp add: sd wellFormed_def drainLoop_fields finishSend_fields)
  next
    case (AwaitSettled p result)
    let ?w1 = "adjustThrottle result (w\<lparr>suspended := []\<rparr>)"
    from wf True have proc: "processing w" by (auto simp: wellFormed_def)
    have sd: "sendDone i outcome w = drainLoop (queue ?w1) ?w1"
      using i True d AwaitSettled by (simp add: sendDone_def Let_def)
    have s1: "suspended ?w1 = []" and p1: "processing ?w1" and o1: "ordered (queue ?w1)"
      using wf proc by (simp_all add: adjustThrottle_fields wellFormed_def)
    note dl = drainLoop_suspended [OF s1 p1 o1]
    have tb: "0 \<le> throttle ?w1 \<and> throttle ?w1 \<le> MAX_THROTTLE"
      using wf by (intro adjustThrottle_throttle_bounds) (simp_all add: wellFormed_def)
    have "SHUTDOWN \<in> set (queue (drainLoop (queue ?w1) ?w1)) \<longrightarrow> shutdown w"
      using drainLoop_queue_set [of "queue ?w1" ?w1] wf
      by (auto simp: adjustThrottle_fields wellFormed_def)
    then show ?thesis
      using dl tb drainLoop_ordered [OF o1, of ?w1]
      by (simp add: sd wellFormed_def drainLoop_fields adjustThrottle_fields)
  qed
qed

lemma sendDone_waiting: "wellFormed w \<Longrightarrow> waiting (sendDone i outcome w) = waiting w"
proof (cases "i < length (suspended w)")
  case False
  then show ?thesis by (simp add: sendDone_def)
next
  case True
  assume wf: "wellFormed w"
  then have "length (suspended w) \<le> 1" by (simp add: wellFormed_def)
  from one_suspended [OF this True] have i: "i = 0" and ss: "suspended w = [suspended w ! 0]"
    and d: "dropAt 0 (suspended w) = []" by simp_all
  show ?thesis
  proof (cases "suspended w ! 0")
    case (AwaitSleep p)
    with i True show ?thesis by (simp add: sendDone_def)
  next
    case (AwaitSend p)
    let ?w1 = "finishSend outcome (w\<lparr>suspended := []\<rparr>)"
    have sd: "sendDone i outcome w = drainLoop (queue ?w1) ?w1"
      using i True d AwaitSend by (simp add: sendDone_def Let_def)
    have s1: "suspended ?w1 = []" and o1: "ordered (queue ?w1)"
      using wf by (simp_all add: finishSend_fields wellFormed_def)
    from ss AwaitSend have "sleeping (suspended w) = []" by (metis sleeping.simps(1,3))
    then show ?thesis
      using drainLoop_waiting [OF s1 o1]
      by (simp add: sd waiting_def finishSend_fields)
  next
    case (AwaitSettled p result)
    let ?w1 = "adjustThrottle result (w\<lparr>suspended := []\<rparr>)"
    have sd: "sendDone i outcome w = drainLoop (queue ?w1) ?w1"
      using i True d AwaitSettled by (simp add: sendDone_def Let_def)
    have s1: "suspended ?w1 = []" and o1: "ordered (queue ?w1)"
      using wf by (simp_all add: adjustThrottle_fields wellFormed_def)
    from ss AwaitSettled have "sleeping (suspended w) = []" by (metis sleeping.simps(1,4))
    then show ?thesis
      using drainLoop_waiting [OF s1 o1]
      by (simp add: sd waiting_def adjustThrottle_fields)
  qed
qed

lemma timers_wellFormed:
  "wellFormed w \<Longrightarrow> wellFormed (flushTimer r w)"
  "wellFormed w \<Longrightarrow> wellFormed (stopTimer w)"
  "wellFormed w \<Longrightarrow> wellFormed (drainCheck w)"
  by (simp_all add: flushTimer_def stopTimer_def drainCheck_def wellFormed_def)

lemma timers_waiting:
  "waiting (flushTimer r w) = waiting w"
  "waiting (stopTimer w) = waiting w"
  "waiting (drainCheck w) = waiting w"
  by (simp_all add: flushTimer_def stopTimer_def drainCheck_def waiting_def sent_append)

lemma step_wellFormed: "wellFormed w \<Longrightarrow> wellFormed (step rt e w)"
  by (cases e)
     (simp_all add: push_wellFormed stop_wellFormed flush_wellFormed sleepDone_wellFormed
        sendDone_wellFormed timers_wellFormed)

lemma run_wellFormed: "wellFormed w \<Longrightarrow> wellFormed (run rt es w)"
  by (induction es arbitrary: w) (simp_all add: step_wellFormed)

lemma newWorker_wellFormed: "wellFormed (newWorker c)"
  by (simp add: newWorker_def wellFormed_def MAX_THROTTLE_def)

lemma run_waiting: "wellFormed w \<Longrightarrow> waiting (run rt es w) = waiting w @ accepted rt es w"
proof (induction es arbitrary: w)
  case Nil
  then show ?case by simp
next
  case (Cons e es)
  have wf': "wellFormed (step rt e w)" using Cons.prems by (rule step_wellFormed)
  have st: "waiting (step rt e w) @ accepted rt es (step rt e w) = waiting w @ accepted rt (e # es) w"
    using Cons.prems
    by (cases e)
       (simp_all add: push_waiting stop_waiting flush_waiting sleepDone_waiting sendDone_waiting
          timers_waiting)
  show ?case using Cons.IH [OF wf'] st by simp
qed


lemma sleepDone_unfinished: "wellFormed w \<Longrightarrow> unfinished (sleepDone 0 w) = unfinished w"
proof (cases "0 < length (suspended w)")
  case False
  then show ?thesis by (simp add: sleepDone_def)
next
  case True
  assume wf: "wellFormed w"
  then have "length (suspended w) \<le> 1" by (simp add: wellFormed_def)
  from one_suspended [OF this True] have ss: "suspended w = [suspended w ! 0]"
    and d: "dropAt 0 (suspended w) = []" by simp_all
  from ss have l: "length (suspended w) = 1" by (metis length_Cons list.size(3) One_nat_def)
  show ?thesis
    using True d l
    by (cases "suspended w ! 0") (simp_all add: sleepDone_def startSend_eq unfinished_def)
qed

lemma sleepDone_not_sleeping:
  "wellFormed w \<Longrightarrow> sleeping (suspended (sleepDone 0 w)) = []"
proof (cases "0 < length (suspended w)")
  case False
  then show ?thesis by (simp add: sleepDone_def)
next
  case True
  assume wf: "wellFormed w"
  then have "length (suspended w) \<le> 1" by (simp add: wellFormed_def)
  from one_suspended [OF this True] have ss: "suspended w = [suspended w ! 0]"
    and d: "dropAt 0 (suspended w) = []" by simp_all
  show ?thesis
  proof (cases "suspended w ! 0")
    case (AwaitSleep p)
    with True d show ?thesis by (simp add: sleepDone_def startSend_eq)
  next
    case (AwaitSend p)
    with ss have "suspended w = [AwaitSend p]" by simp
    with True AwaitSend show ?thesis by (simp add: sleepDone_def)
  next
    case (AwaitSettled p result)
    with ss have "suspended w = [AwaitSettled p result]" by simp
    with True AwaitSettled show ?thesis by (simp add: sleepDone_def)
  qed
qed

lemma sendDone_unfinished:
  "wellFormed w \<Longrightarrow> sleeping (suspended w) = [] \<Longrightarrow>
     unfinished (sendDone 0 outcome w) = unfinished w - 1"
proof (cases "0 < length (suspended w)")
  case False
  assume wf: "wellFormed w"
  with False have "payloads (queue w) = []" by (auto simp: wellFormed_def)
  with False show ?thesis by (simp add: sendDone_def unfinished_def)
next
  case True
  assume wf: "wellFormed w" and ns: "sleeping (suspended w) = []"
  then have "length (suspended w) \<le> 1" by (simp add: wellFormed_def)
  from one_suspended [OF this True] have ss: "suspended w = [suspended w ! 0]"
    and d: "dropAt 0 (suspended w) = []" by simp_all
  from ss have l: "length (suspended w) = 1" by (metis length_Cons list.size(3) One_nat_def)
  show ?thesis
  proof (cases "suspended w ! 0")
    case (AwaitSleep p)
    with ss have "suspended w = [AwaitSleep p]" by simp
    with ns show ?thesis by simp
  next
    case (AwaitSend p)
    let ?w1 = "finishSend outcome (w\<lparr>suspended := []\<rparr>)"
    from wf True have proc: "processing w" by (auto simp: wellFormed_def)
    have sd: "sendDone 0 outcome w = drainLoop (queue ?w1) ?w1"
      using True d AwaitSend by (simp add: sendDone_def Let_def)
    have s1: "suspended ?w1 = []" and p1: "processing ?w1" and o1: "ordered (queue ?w1)"
      using wf proc by (simp_all add: finishSend_fields wellFormed_def)
    from drainLoop_suspended [OF s1 p1 o1] l show ?thesis
      by (simp add: sd unfinished_def finishSend_fields)
  next
    case (AwaitSettled p result)
    let ?w1 = "adjustThrottle result (w\<lparr>suspended := []\<rparr>)"
    from wf True have proc: "processing w" by (auto simp: wellFormed_def)
    have sd: "sendDone 0 outcome w = drainLoop (queue ?w1) ?w1"
      using True d AwaitSettled by (simp add: sendDone_def Let_def)
    have s1: "suspended ?w1 = []" and p1: "processing ?w1" and o1: "ordered (queue ?w1)"
      using wf proc by (simp_all add: adjustThrottle_fields wellFormed_def)
    from drainLoop_suspended [OF s1 p1 o1] l show ?thesis
      by (simp add: sd unfinished_def adjustThrottle_fields)
  qed
qed

lemma completions_finish:
  "wellFormed w \<Longrightarrow> unfinished w \<le> length os \<Longrightarrow>
     unfinished (run rt (completions os) w) = 0"
proof (induction os arbitrary: w)
  case Nil
  then show ?case by simp
next
  case (Cons outcome os)
  let ?w1 = "sleepDone 0 w"
  let ?w2 = "sendDone 0 outcome ?w1"
  have wf1: "wellFormed ?w1" using Cons.prems(1) by (rule sleepDone_wellFormed)
  have wf2: "wellFormed ?w2" using wf1 by (rule sendDone_wellFormed)
  have "unfinished ?w2 = unfinished w - 1"
    using sendDone_unfinished [OF wf1 sleepDone_not_sleeping [OF Cons.prems(1)]]
      sleepDone_unfinished [OF Cons.prems(1)] by simp
  with Cons.prems(2) have "unfinished ?w2 \<le> length os" by simp
  from Cons.IH [OF wf2 this] show ?case by simp
qed

lemma accepted_completions: "accepted rt (completions os) w = []"
  by (induction os arbitrary: w) simp_all

lemma unfinished_zero_waiting:
  "unfinished w = 0 \<Longrightarrow> waiting w = sent (effects w)"
  by (simp add: unfinished_def waiting_def)

lemma inFlight_length: "length (inFlight ss) \<le> length ss"
  by (induction ss rule: inFlight.induct) simp_all

lemma queue_only_grows:
  assumes "processing w" "\<forall>i outcome. e \<noteq> SendDone i outcome"
  shows "\<exists>ys. queue (step rt e w) = queue w @ ys"
proof (cases e)
  case (Push notice)
  with assms(1) show ?thesis by (simp add: push_def processQueue_def)
next
  case Stop
  then show ?thesis by (simp add: stop_def)
next
  case (Flush r)
  with assms(1) show ?thesis by (simp add: flush_def processQueue_def Let_def)
next
  case (SleepDone i)
  then show ?thesis
    by (auto simp: sleepDone_def startSend_eq split: suspension.splits)
next
  case (SendDone i outcome)
  with assms(2) show ?thesis by simp
next
  case (FlushTimer r)
  then show ?thesis by (simp add: flushTimer_def)
next
  case StopTimer
  then show ?thesis by (simp add: stopTimer_def)
next
  case DrainCheck
  then show ?thesis by (simp add: drainCheck_def)
qed


lemma drainLoop_requestsIssued: "requestsIssued w \<Longrightarrow> requestsIssued (drainLoop q w)"
  by (induction q w rule: drainLoop.induct)
     (simp_all add: requestsIssued_def sendWithThrottle_def startSend_eq fetched_append sent_append)

lemma processQueue_requestsIssued: "requestsIssued w \<Longrightarrow> requestsIssued (processQueue w)"
proof -
  assume r: "requestsIssued w"
  then have "requestsIssued (w\<lparr>processing := True\<rparr>)" by (simp add: requestsIssued_def)
  with r show ?thesis by (simp add: processQueue_def drainLoop_requestsIssued)
qed

lemma push_requestsIssued: "requestsIssued w \<Longrightarrow> requestsIssued (snd (push rt notice w))"
proof -
  assume r: "requestsIssued w"
  then have "requestsIssued (w\<lparr>queue := queue w @ [Payload (toPayload rt notice)]\<rparr>)"
    and "requestsIssued (w\<lparr>effects := effects w @ [Log LWarn QueueFull]\<rparr>)"
    by (simp_all add: requestsIssued_def fetched_append sent_append)
  with r show ?thesis by (simp add: push_def processQueue_requestsIssued)
qed

lemma stop_requestsIssued: "requestsIssued w \<Longrightarrow> requestsIssued (stop w)"
  by (simp add: stop_def requestsIssued_def fetched_append sent_append)

lemma flush_requestsIssued: "requestsIssued w \<Longrightarrow> requestsIssued (flush r w)"
proof -
  assume r: "requestsIssued w"
  then have "requestsIssued (w\<lparr>queue := queue w @ [FLUSH r]\<rparr>)" by (simp add: requestsIssued_def)
  then have "requestsIssued (processQueue (w\<lparr>queue := queue w @ [FLUSH r]\<rparr>))"
    by (rule processQueue_requestsIssued)
  then show ?thesis by (simp add: flush_def Let_def requestsIssued_def)
qed

lemma sleepDone_requestsIssued: "requestsIssued w \<Longrightarrow> requestsIssued (sleepDone i w)"
  by (auto simp: sleepDone_def startSend_eq requestsIssued_def fetched_append sent_append
      split: suspension.splits)

lemma sendDone_requestsIssued: "requestsIssued w \<Longrightarrow> requestsIssued (sendDone i outcome w)"
proof -
  assume r: "requestsIssued w"
  have a: "requestsIssued (finishSend outcome (w\<lparr>suspended := ss\<rparr>))" for ss
    using r by (simp add: requestsIssued_def finishSend_fields)
  have b: "requestsIssued (adjustThrottle result (w\<lparr>suspended := ss\<rparr>))" for result ss
    using r by (simp add: requestsIssued_def adjustThrottle_fields)
  show ?thesis
    using r a b
    by (auto simp: sendDone_def Let_def drainLoop_requestsIssued split: suspension.splits)
qed

lemma timers_requestsIssued:
  "requestsIssued w \<Longrightarrow> requestsIssued (flushTimer r w)"
  "requestsIssued w \<Longrightarrow> requestsIssued (stopTimer w)"
  "requestsIssued w \<Longrightarrow> requestsIssued (drainCheck w)"
  by (simp_all add: flushTimer_def stopTimer_def drainCheck_def requestsIssued_def
      fetched_append sent_append)

lemma step_requestsIssued: "requestsIssued w \<Longrightarrow> requestsIssued (step rt e w)"
  by (cases e)
     (simp_all add: push_requestsIssued stop_requestsIssued flush_requestsIssued
        sleepDone_requestsIssued sendDone_requestsIssued timers_requestsIssued)

lemma run_requestsIssued: "requestsIssued w \<Longrightarrow> requestsIssued (run rt es w)"
  by (induction es arbitrary: w) (simp_all add: step_requestsIssued)

lemma newWorker_requestsIssued: "requestsIssued (newWorker c)"
  by (simp add: newWorker_def requestsIssued_def)

section \<open>Pre-send callbacks: properties\<close>

lemma runCallbacks_append:
  "runCallbacks (pre @ post) notice tr called =
     (case runCallbacks pre notice tr called of
        (ok, notice', tr', called') \<Rightarrow>
          (if ok then runCallbacks post notice' tr' called' else (False, notice', tr', called')))"
  by (induction pre arbitrary: notice tr called) (auto split: prod.splits callback_result.splits)

lemma runCallbacks_all_called:
  "runCallbacks cbs notice tr called = (True, notice', tr', called') \<Longrightarrow> called' = called + length cbs"
proof (induction cbs arbitrary: notice tr called)
  case Nil
  then show ?case by simp
next
  case (Cons cb cbs)
  obtain res nt where cb: "cb notice = (res, nt)" by (cases "cb notice")
  show ?case
  proof (cases res)
    case (Returned v)
    with Cons.prems cb have "runCallbacks cbs nt tr (Suc called) = (True, notice', tr', called')"
      by (simp split: if_splits)
    from Cons.IH [OF this] show ?thesis by simp
  next
    case (Threw e)
    with Cons.prems cb have
      "runCallbacks cbs nt (tr @ [Log LWarn (CallbackFailed (errorMsg e))]) (Suc called)
         = (True, notice', tr', called')"
      by simp
    from Cons.IH [OF this] show ?thesis by simp
  qed
qed

text \<open>
  Claim C8. Let the callbacks before \<open>cb\<close> have run without a veto. If \<open>cb\<close> throws, the
  exception is caught and a warning is logged, and the result of the whole run is the
  result of running the callbacks after \<open>cb\<close>: they are all called unless one of them
  returns \<open>false\<close>, and when none does the notice is handed to \<open>sendNotice\<close> after every
  callback has been called. If \<open>cb\<close> returns \<open>false\<close>, the run stops there with \<open>false\<close>
  and \<open>notify\<close> returns without sending.
\<close>

theorem beforeNotify_fault_and_veto:
  "runCallbacks pre notice tr 0 = (True, notice1, tr1, called1) \<Longrightarrow>
     (cb notice1 = (Threw e, notice2) \<longrightarrow>
        runBeforeNotifyCallbacks (Some (c\<lparr>beforeNotify := pre @ cb # rest\<rparr>)) notice tr
          = runCallbacks rest notice2 (tr1 @ [Log LWarn (CallbackFailed (errorMsg e))]) (Suc (length pre))
        \<and> (runCallbacks rest notice2 (tr1 @ [Log LWarn (CallbackFailed (errorMsg e))]) (Suc (length pre))
              = (True, notice3, tr3, called3) \<longrightarrow>
            notifyFiltered (Some (c\<lparr>beforeNotify := pre @ cb # rest\<rparr>)) notice tr = (Some notice3, tr3)
            \<and> called3 = length (pre @ cb # rest)))
   \<and> (cb notice1 = (Returned (JBool False), notice2) \<longrightarrow>
        runBeforeNotifyCallbacks (Some (c\<lparr>beforeNotify := pre @ cb # rest\<rparr>)) notice tr
          = (False, notice2, tr1 @ [Log LDebug NoticeBlocked], Suc (length pre))
        \<and> notifyFiltered (Some (c\<lparr>beforeNotify := pre @ cb # rest\<rparr>)) notice tr
          = (None, tr1 @ [Log LDebug NoticeBlocked]))"
proof -
  assume pre: "runCallbacks pre notice tr 0 = (True, notice1, tr1, called1)"
  have n1: "called1 = length pre"
    using runCallbacks_all_called [OF pre] by simp
  have whole: "runBeforeNotifyCallbacks (Some (c\<lparr>beforeNotify := pre @ cb # rest\<rparr>)) notice tr
      = runCallbacks (cb # rest) notice1 tr1 (length pre)"
    by (simp add: runBeforeNotifyCallbacks_def runCallbacks_append pre n1)
  show ?thesis
  proof (intro conjI impI)
    assume "cb notice1 = (Threw e, notice2)"
    then show a: "runBeforeNotifyCallbacks (Some (c\<lparr>beforeNotify := pre @ cb # rest\<rparr>)) notice tr
          = runCallbacks rest notice2 (tr1 @ [Log LWarn (CallbackFailed (errorMsg e))]) (Suc (length pre))"
      by (simp add: whole)
    assume r: "runCallbacks rest notice2 (tr1 @ [Log LWarn (CallbackFailed (errorMsg e))]) (Suc (length pre))
              = (True, notice3, tr3, called3)"
    show "notifyFiltered (Some (c\<lparr>beforeNotify := pre @ cb # rest\<rparr>)) notice tr = (Some notice3, tr3)"
      by (simp add: notifyFiltered_def a r)
    show "called3 = length (pre @ cb # rest)"
      using runCallbacks_all_called [OF r] by simp
  next
    assume "cb notice1 = (Returned (JBool False), notice2)"
    then show b: "runBeforeNotifyCallbacks (Some (c\<lparr>beforeNotify := pre @ cb # rest\<rparr>)) notice tr
          = (False, notice2, tr1 @ [Log LDebug NoticeBlocked], Suc (length pre))"
      by (simp add: whole)
    show "notifyFiltered (Some (c\<lparr>beforeNotify := pre @ cb # rest\<rparr>)) notice tr
          = (None, tr1 @ [Log LDebug NoticeBlocked])"
      by (simp add: notifyFiltered_def b)
  qed
qed

theorem beforeNotify_fault_and_veto_witness:
  "notifyFiltered
     (Some (exampleConfig None
        \<lparr>beforeNotify := [passes] @ throws # [tagging]\<rparr>)) (exampleNotice ''a'') []
     = (Some (exampleNotice ''a'' \<lparr>tags := [''seen'']\<rparr>), [Log LWarn (CallbackFailed ''oops'')])
   \<and> runBeforeNotifyCallbacks
     (Some (exampleConfig None
        \<lparr>beforeNotify := [passes] @ throws # [tagging]\<rparr>)) (exampleNotice ''a'') []
     = (True, exampleNotice ''a'' \<lparr>tags := [''seen'']\<rparr>, [Log LWarn (CallbackFailed ''oops'')], 3)
   \<and> notifyFiltered
     (Some (exampleConfig None
        \<lparr>beforeNotify := [passes] @ vetoes # [tagging]\<rparr>)) (exampleNotice ''a'') []
     = (None, [Log LDebug NoticeBlocked])
   \<and> runBeforeNotifyCallbacks
     (Some (exampleConfig None
        \<lparr>beforeNotify := [passes] @ vetoes # [tagging]\<rparr>)) (exampleNotice ''a'') []
     = (False, exampleNotice ''a'', [Log LDebug NoticeBlocked], 2)"
proof -
  have pre: "runCallbacks [passes] (exampleNotice ''a'') [] 0 = (True, exampleNotice ''a'', [], 1)"
    by (simp add: passes_def)
  have t: "throws (exampleNotice ''a'') = (Threw (ErrorObject ''TypeError'' ''oops''), exampleNotice ''a'')"
    by (simp add: throws_def)
  have v: "vetoes (exampleNotice ''a'') = (Returned (JBool False), exampleNotice ''a'')"
    by (simp add: vetoes_def)
  have r: "runCallbacks [tagging] (exampleNotice ''a'')
        ([] @ [Log LWarn (CallbackFailed (errorMsg (ErrorObject ''TypeError'' ''oops'')))])
        (Suc (length [passes]))
      = (True, exampleNotice ''a'' \<lparr>tags := [''seen'']\<rparr>, [Log LWarn (CallbackFailed ''oops'')], 3)"
    by (simp add: tagging_def exampleNotice_def createNotice_def)
  show ?thesis
    using beforeNotify_fault_and_veto [OF pre, where cb = throws
          and e = "ErrorObject ''TypeError'' ''oops''" and ?notice2.0 = "exampleNotice ''a''"
          and rest = "[tagging]" and ?notice3.0 = "exampleNotice ''a'' \<lparr>tags := [''seen'']\<rparr>"
          and ?tr3.0 = "[Log LWarn (CallbackFailed ''oops'')]" and ?called3.0 = 3
          and c = "exampleConfig None"]
      beforeNotify_fault_and_veto [OF pre, where cb = vetoes
          and ?notice2.0 = "exampleNotice ''a''" and rest = "[tagging]"
          and c = "exampleConfig None"]
      t v r
    by simp
qed

section \<open>Transport: properties\<close>

lemma catchSend_null:
  "fst (catchSend e tr) = JNull" "\<exists>m. snd (catchSend e tr) = tr @ [Log LError m]"
  by (cases e; simp)+

lemma catchSend_fetched: "fetched (snd (catchSend e tr)) = fetched tr"
  by (cases e) (simp_all add: fetched_append)

lemma send_stringifies:
  "stringifies payload \<Longrightarrow> send outcome payload tr = sendEnd outcome (tr @ [Fetch payload])"
  by (simp add: send_def sendBegin_def)

lemma send_not_stringifies:
  "\<not> stringifies payload \<Longrightarrow>
     send outcome payload tr =
       (JNull, tr @ [Log LError (SendFailed
          (ErrorObject ''TypeError'' ''Do not know how to serialize a BigInt''))])"
  by (simp add: send_def sendBegin_def)

lemma send_Rejected:
  "stringifies payload \<Longrightarrow> send (Rejected e) payload tr = catchSend e (tr @ [Fetch payload])"
  by (simp add: send_stringifies sendEnd_def)

lemma send_not_201:
  "stringifies payload \<Longrightarrow> status r \<noteq> 201 \<Longrightarrow>
     fst (send (Fulfilled r) payload tr) = JNull
     \<and> (\<exists>l m. l \<in> {LWarn, LError} \<and> snd (send (Fulfilled r) payload tr) = tr @ [Fetch payload, Log l m])"
  by (simp add: send_stringifies sendEnd_def handleResponse_def Let_def)

lemma send_201_unparsed:
  "stringifies payload \<Longrightarrow> status r = 201 \<Longrightarrow> json r = Rejected e \<Longrightarrow>
     send (Fulfilled r) payload tr = catchSend e (tr @ [Fetch payload])"
  by (simp add: send_stringifies sendEnd_def handleResponse_def)

lemma send_201_null:
  "stringifies payload \<Longrightarrow> status r = 201 \<Longrightarrow> json r = Fulfilled JNull \<Longrightarrow>
     fst (send (Fulfilled r) payload tr) = JNull"
  by (simp add: send_stringifies sendEnd_def handleResponse_def)

lemma send_201_parsed:
  "stringifies payload \<Longrightarrow> status r = 201 \<Longrightarrow> json r = Fulfilled b \<Longrightarrow> b \<noteq> JUndefined \<Longrightarrow>
     b \<noteq> JNull \<Longrightarrow>
     send (Fulfilled r) payload tr = (b, tr @ [Fetch payload, Log LDebug (NoticeSent b)])"
  by (simp add: send_stringifies sendEnd_def handleResponse_def)

lemma send_one_request:
  "stringifies payload \<Longrightarrow> fetched (snd (send outcome payload tr)) = fetched tr @ [payload]"
  by (simp add: send_stringifies logged_only_fetched fetched_append)

lemma send_no_request:
  "\<not> stringifies payload \<Longrightarrow> fetched (snd (send outcome payload tr)) = fetched tr"
  by (simp add: send_not_stringifies fetched_append)

text \<open>
  Claim C6, as the code has it. \<open>send\<close> is a function with a result for every payload and
  every outcome of the request: no exception leaves it. It issues at most one request:
  exactly one when \<open>JSON.stringify\<close> has a result for the payload, and none when it throws,
  in which case \<open>send\<close> returns \<open>null\<close> after one error message. When the request has been
  issued: on status 201 \<open>send\<close> returns the parsed body, with a debug message when the body
  is not \<open>null\<close>; on any other status, when the request is aborted by the timeout, on any
  other rejection of \<open>fetch\<close>, and when the body of a 201 response cannot be parsed, it
  returns \<open>null\<close> after exactly one warning or error message, and issues no second request.
\<close>

theorem send_at_most_one_attempt_never_throws:
  "(stringifies payload \<longrightarrow> fetched (snd (send outcome payload tr)) = fetched tr @ [payload])
   \<and> (\<not> stringifies payload \<longrightarrow>
        fetched (snd (send outcome payload tr)) = fetched tr
        \<and> fst (send outcome payload tr) = JNull
        \<and> (\<exists>m. snd (send outcome payload tr) = tr @ [Log LError m]))
   \<and> (\<forall>r b. stringifies payload \<and> outcome = Fulfilled r \<and> status r = 201 \<and> json r = Fulfilled b
            \<and> b \<noteq> JUndefined
         \<longrightarrow> fst (send outcome payload tr) = b)
   \<and> (\<forall>r b. stringifies payload \<and> outcome = Fulfilled r \<and> status r = 201 \<and> json r = Fulfilled b
            \<and> b \<noteq> JUndefined \<and> b \<noteq> JNull
         \<longrightarrow> send outcome payload tr = (b, tr @ [Fetch payload, Log LDebug (NoticeSent b)]))
   \<and> (\<forall>r. stringifies payload \<and> outcome = Fulfilled r \<and> status r \<noteq> 201
         \<longrightarrow> fst (send outcome payload tr) = JNull
             \<and> (\<exists>l m. l \<in> {LWarn, LError} \<and> snd (send outcome payload tr) = tr @ [Fetch payload, Log l m]))
   \<and> (\<forall>r e. stringifies payload \<and> outcome = Fulfilled r \<and> status r = 201 \<and> json r = Rejected e
         \<longrightarrow> fst (send outcome payload tr) = JNull
             \<and> (\<exists>m. snd (send outcome payload tr) = tr @ [Fetch payload, Log LError m]))
   \<and> (\<forall>msg. stringifies payload \<and> outcome = Rejected (ErrorObject ''AbortError'' msg)
         \<longrightarrow> send outcome payload tr = (JNull, tr @ [Fetch payload, Log LError RequestTimeout]))
   \<and> (\<forall>e. stringifies payload \<and> outcome = Rejected e
         \<longrightarrow> fst (send outcome payload tr) = JNull
             \<and> (\<exists>m. snd (send outcome payload tr) = tr @ [Fetch payload, Log LError m]))"
proof (intro conjI allI impI)
  assume "stringifies payload"
  then show "fetched (snd (send outcome payload tr)) = fetched tr @ [payload]"
    by (rule send_one_request)
next
  assume n: "\<not> stringifies payload"
  then show "fetched (snd (send outcome payload tr)) = fetched tr"
    by (rule send_no_request)
  from n show "fst (send outcome payload tr) = JNull"
    by (simp add: send_not_stringifies)
  from n show "\<exists>m. snd (send outcome payload tr) = tr @ [Log LError m]"
    by (simp add: send_not_stringifies)
next
  fix r b
  assume "stringifies payload \<and> outcome = Fulfilled r \<and> status r = 201 \<and> json r = Fulfilled b
      \<and> b \<noteq> JUndefined"
  then show "fst (send outcome payload tr) = b"
    by (cases "b = JNull") (simp_all add: send_201_null send_201_parsed)
next
  fix r b
  assume "stringifies payload \<and> outcome = Fulfilled r \<and> status r = 201 \<and> json r = Fulfilled b
      \<and> b \<noteq> JUndefined \<and> b \<noteq> JNull"
  then show "send outcome payload tr = (b, tr @ [Fetch payload, Log LDebug (NoticeSent b)])"
    by (simp add: send_201_parsed)
next
  fix r
  assume a: "stringifies payload \<and> outcome = Fulfilled r \<and> status r \<noteq> 201"
  then show "fst (send outcome payload tr) = JNull"
    using send_not_201 [of payload r tr] by simp
  from a show "\<exists>l m. l \<in> {LWarn, LError} \<and> snd (send outcome payload tr) = tr @ [Fetch payload, Log l m]"
    using send_not_201 [of payload r tr] by simp
next
  fix r e
  assume a: "stringifies payload \<and> outcome = Fulfilled r \<and> status r = 201 \<and> json r = Rejected e"
  then show "fst (send outcome payload tr) = JNull"
    by (simp add: send_201_unparsed catchSend_null)
  from a show "\<exists>m. snd (send outcome payload tr) = tr @ [Fetch payload, Log LError m]"
    using catchSend_null(2) [of e "tr @ [Fetch payload]"] by (simp add: send_201_unparsed)
next
  fix msg
  assume "stringifies payload \<and> outcome = Rejected (ErrorObject ''AbortError'' msg)"
  then show "send outcome payload tr = (JNull, tr @ [Fetch payload, Log LError RequestTimeout])"
    by (simp add: send_Rejected)
next
  fix e
  assume a: "stringifies payload \<and> outcome = Rejected e"
  then show "fst (send outcome payload tr) = JNull"
    by (simp add: send_Rejected catchSend_null)
  from a show "\<exists>m. snd (send outcome payload tr) = tr @ [Fetch payload, Log LError m]"
    using catchSend_null(2) [of e "tr @ [Fetch payload]"] by (simp add: send_Rejected)
qed

lemma examples_stringify:
  "stringifies (toPayload exampleRuntime (exampleNotice msg))"
  "\<not> stringifies (toPayload exampleRuntime bigIntNotice)"
  by (simp_all add: stringifies_def toPayload_def exampleNotice_def bigIntNotice_def
      createNotice_def spread_def)

theorem send_at_most_one_attempt_never_throws_witness:
  "send (Fulfilled created) (toPayload exampleRuntime (exampleNotice ''a'')) []
     = (JObject [(''id'', JNumber 1), (''problem_id'', JNumber 2)],
        [Fetch (toPayload exampleRuntime (exampleNotice ''a'')),
         Log LDebug (NoticeSent (JObject [(''id'', JNumber 1), (''problem_id'', JNumber 2)]))])
   \<and> fst (send (Fulfilled unavailable) (toPayload exampleRuntime (exampleNotice ''a'')) []) = JNull
   \<and> fetched (snd (send (Fulfilled unavailable) (toPayload exampleRuntime (exampleNotice ''a'')) []))
       = [toPayload exampleRuntime (exampleNotice ''a'')]
   \<and> send (Rejected (ErrorObject ''AbortError'' ''This operation was aborted''))
        (toPayload exampleRuntime (exampleNotice ''a'')) []
     = (JNull, [Fetch (toPayload exampleRuntime (exampleNotice ''a'')), Log LError RequestTimeout])
   \<and> fetched (snd (send (Fulfilled created) (toPayload exampleRuntime bigIntNotice) [])) = []
   \<and> fst (send (Fulfilled created) (toPayload exampleRuntime bigIntNotice) []) = JNull"
  using send_at_most_one_attempt_never_throws [of "toPayload exampleRuntime (exampleNotice ''a'')"
      "Fulfilled created" "[]"]
    send_at_most_one_attempt_never_throws [of "toPayload exampleRuntime (exampleNotice ''a'')"
      "Fulfilled unavailable" "[]"]
    send_at_most_one_attempt_never_throws [of "toPayload exampleRuntime (exampleNotice ''a'')"
      "Rejected (ErrorObject ''AbortError'' ''This operation was aborted'')" "[]"]
    send_at_most_one_attempt_never_throws [of "toPayload exampleRuntime bigIntNotice"
      "Fulfilled created" "[]"]
    examples_stringify
  by (simp add: created_def unavailable_def)

text \<open>
  Claim C6 as stated says that every call makes exactly one network attempt. For a
  payload that holds a BigInt, \<open>JSON.stringify\<close> throws while the argument of \<open>fetch\<close> is
  being built: \<open>send\<close> returns \<open>null\<close> and no request has been issued.
\<close>

theorem send_without_request_counterexample:
  "send (Fulfilled created) (toPayload exampleRuntime bigIntNotice) []
     = (JNull, [Log LError (SendFailed
          (ErrorObject ''TypeError'' ''Do not know how to serialize a BigInt''))])
   \<and> fetched (snd (send (Fulfilled created) (toPayload exampleRuntime bigIntNotice) [])) = []"
  by (simp add: send_def sendBegin_def stringifies_def toPayload_def bigIntNotice_def
      createNotice_def spread_def)

section \<open>Delivery queue: properties\<close>

lemma waiting_newWorker: "waiting (newWorker c) = []"
  by (simp add: waiting_def newWorker_def)

text \<open>
  Claim C3. For every sequence of calls and completions applied to a new worker: the
  payloads handed to the transport, followed by the one waiting for its throttle sleep
  and by those still queued, are exactly the payloads of the accepted pushes, in push
  order; a request has been issued for each payload handed over that can be serialised,
  in the same order, so when every accepted payload can be serialised the same holds of
  the requests issued. At most one call of \<open>processQueue\<close> is suspended, so at most one
  send is in flight. While one is suspended nothing but the completion of its send takes
  an item off the queue. Once the pending sends have completed, whatever their outcomes,
  the transport has received exactly the accepted payloads in push order and nothing is
  in flight. A shutdown marker at the head ends the loop at once and leaves the items
  behind it in the queue.
\<close>

theorem drain_delivers_in_push_order:
  "w = run rt es (newWorker c) \<Longrightarrow>
     sent (effects w) @ sleeping (suspended w) @ payloads (queue w) = accepted rt es (newWorker c)
   \<and> fetched (effects w) = filter stringifies (sent (effects w))
   \<and> ((\<forall>p \<in> set (accepted rt es (newWorker c)). stringifies p) \<longrightarrow>
        fetched (effects w) @ sleeping (suspended w) @ payloads (queue w)
          = accepted rt es (newWorker c))
   \<and> length (suspended w) \<le> 1
   \<and> length (inFlight (suspended w)) \<le> 1
   \<and> (processing w \<longrightarrow>
        (\<forall>e. (\<forall>i outcome. e \<noteq> SendDone i outcome) \<longrightarrow> (\<exists>ys. queue (step rt e w) = queue w @ ys)))
   \<and> (\<forall>os. unfinished w \<le> length os \<longrightarrow>
        sent (effects (run rt (completions os) w)) = accepted rt es (newWorker c)
        \<and> fetched (effects (run rt (completions os) w))
            = filter stringifies (accepted rt es (newWorker c))
        \<and> suspended (run rt (completions os) w) = [])
   \<and> (\<forall>rest v. drainLoop (SHUTDOWN # rest) v = v\<lparr>queue := rest, processing := False\<rparr>)"
proof -
  assume w: "w = run rt es (newWorker c)"
  have wf: "wellFormed w"
    unfolding w by (rule run_wellFormed [OF newWorker_wellFormed])
  have ri: "requestsIssued w"
    unfolding w by (rule run_requestsIssued [OF newWorker_requestsIssued])
  have acc: "waiting w = accepted rt es (newWorker c)"
    unfolding w using run_waiting [OF newWorker_wellFormed, of rt es c]
    by (simp add: waiting_newWorker)
  have req: "fetched (effects w) = filter stringifies (sent (effects w))"
    using ri by (simp add: requestsIssued_def)
  have old: "fetched (effects w) @ sleeping (suspended w) @ payloads (queue w)
          = accepted rt es (newWorker c)"
    if all: "\<forall>p \<in> set (accepted rt es (newWorker c)). stringifies p"
  proof -
    have "set (sent (effects w)) \<subseteq> set (accepted rt es (newWorker c))"
      using acc [symmetric] by (simp add: waiting_def)
    with all have "filter stringifies (sent (effects w)) = sent (effects w)"
      by (auto simp: filter_id_conv)
    with req acc show ?thesis by (simp add: waiting_def)
  qed
  have one: "length (suspended w) \<le> 1" using wf by (simp add: wellFormed_def)
  have fl: "length (inFlight (suspended w)) \<le> 1"
    using one inFlight_length [of "suspended w"] by simp
  have fin: "sent (effects (run rt (completions os) w)) = accepted rt es (newWorker c)
        \<and> fetched (effects (run rt (completions os) w))
            = filter stringifies (accepted rt es (newWorker c))
        \<and> suspended (run rt (completions os) w) = []" if u: "unfinished w \<le> length os" for os
  proof -
    let ?w' = "run rt (completions os) w"
    have z: "unfinished ?w' = 0" using completions_finish [OF wf u] .
    have "waiting ?w' = waiting w"
      using run_waiting [OF wf, of rt "completions os"] by (simp add: accepted_completions)
    with z acc have s: "sent (effects ?w') = accepted rt es (newWorker c)"
      by (simp add: unfinished_zero_waiting)
    have "requestsIssued ?w'" using ri by (rule run_requestsIssued)
    with s z show ?thesis
      by (simp add: requestsIssued_def unfinished_def)
  qed
  show ?thesis
    using acc req old one fl fin queue_only_grows [of w _ rt]
    by (simp add: waiting_def)
qed

lemma exampleEvents_run:
  "map (e_message \<circ> p_error)
      (fetched (effects (run exampleRuntime exampleEvents (newWorker (exampleConfig None)))))
       = [''a'', ''b'']
   \<and> map (e_message \<circ> p_error)
      (sent (effects (run exampleRuntime exampleEvents (newWorker (exampleConfig None)))))
       = [''a'', ''b'']
   \<and> queue (run exampleRuntime exampleEvents (newWorker (exampleConfig None))) = [FLUSH 7]
   \<and> suspended (run exampleRuntime exampleEvents (newWorker (exampleConfig None))) = []
   \<and> throttle (run exampleRuntime exampleEvents (newWorker (exampleConfig None))) = 0"
  by (simp add: exampleEvents_def exampleRuntime_def exampleNotice_def exampleConfig_def
      newWorker_def newConfiguration_def push_def processQueue_def sendWithThrottle_def
      startSend_def sendBegin_def stringifies_def toPayload_def createNotice_def sendDone_def
      sleepDone_def finishSend_def adjustThrottle_def sendEnd_def handleResponse_def
      unavailable_def created_def incThrottle_def decThrottle_def MAX_THROTTLE_def dropAt_def
      stop_def flush_def throttleDelay_def BASE_THROTTLE_def spread_def truncateMessage_def
      MAX_MESSAGE_LENGTH_def orElse_def parseBacktrace_def)

lemma bigIntEvents_run:
  "map (e_message \<circ> p_error)
      (sent (effects (run exampleRuntime bigIntEvents (newWorker (exampleConfig None)))))
       = [''big'', ''b'']
   \<and> map (e_message \<circ> p_error)
      (fetched (effects (run exampleRuntime bigIntEvents (newWorker (exampleConfig None)))))
       = [''b'']
   \<and> queue (run exampleRuntime bigIntEvents (newWorker (exampleConfig None))) = []
   \<and> suspended (run exampleRuntime bigIntEvents (newWorker (exampleConfig None))) = []"
  by (simp add: bigIntEvents_def bigIntNotice_def exampleRuntime_def exampleNotice_def
      exampleConfig_def
      newWorker_def newConfiguration_def push_def processQueue_def sendWithThrottle_def
      startSend_def sendBegin_def stringifies_def toPayload_def createNotice_def sendDone_def
      sleepDone_def finishSend_def adjustThrottle_def sendEnd_def handleResponse_def
      unavailable_def created_def incThrottle_def decThrottle_def MAX_THROTTLE_def dropAt_def
      stop_def flush_def throttleDelay_def BASE_THROTTLE_def spread_def truncateMessage_def
      MAX_MESSAGE_LENGTH_def orElse_def parseBacktrace_def)

theorem drain_delivers_in_push_order_witness:
  "map (e_message \<circ> p_error)
      (accepted exampleRuntime exampleEvents (newWorker (exampleConfig None))) = [''a'', ''b'']
   \<and> map (e_message \<circ> p_error)
      (fetched (effects (run exampleRuntime exampleEvents (newWorker (exampleConfig None)))))
       = [''a'', ''b'']
   \<and> queue (run exampleRuntime exampleEvents (newWorker (exampleConfig None))) = [FLUSH 7]
   \<and> sent (effects (run exampleRuntime exampleEvents (newWorker (exampleConfig None))))
       = accepted exampleRuntime exampleEvents (newWorker (exampleConfig None))
   \<and> map (e_message \<circ> p_error)
      (accepted exampleRuntime bigIntEvents (newWorker (exampleConfig None))) = [''big'', ''b'']
   \<and> map (e_message \<circ> p_error)
      (fetched (effects (run exampleRuntime bigIntEvents (newWorker (exampleConfig None)))))
       = [''b'']"
  using drain_delivers_in_push_order [OF refl, of exampleRuntime exampleEvents "exampleConfig None"]
    drain_delivers_in_push_order [OF refl, of exampleRuntime bigIntEvents "exampleConfig None"]
    exampleEvents_run bigIntEvents_run
  by simp

lemma sendWithThrottle_sleeps:
  "0 < throttle w \<Longrightarrow>
     sendWithThrottle p w =
       w\<lparr>effects := effects w @ [Sleep (round (((1.05::real) ^ nat (throttle w) - 1) * 1000))],
         suspended := suspended w @ [AwaitSleep p]\<rparr>"
  by (simp add: sendWithThrottle_def throttleDelay_def BASE_THROTTLE_def)

text \<open>
  Claim C4. With the throttle level \<open>K\<close> above zero, \<open>sendWithThrottle\<close> starts a sleep of
  exactly \<open>round ((1.05 ^ K - 1) * 1000)\<close> milliseconds and hands nothing to the transport
  before the sleep has ended; the payload is handed over when it ends, and the request
  follows if the payload can be serialised (otherwise the transport logs the failure and
  issues none). With the level at zero the payload is handed over at once. When the send
  has settled the level is \<open>min (K + 1) 100\<close> if it returned \<open>null\<close> and \<open>max (K - 1) 0\<close>
  otherwise, and in every reachable worker the level is between 0 and 100. The delay is
  computed on the reals; for the levels 0 to 100 the double-precision evaluation of the
  same expression rounds to the same integer.
\<close>

theorem throttle_sleep_and_level:
  "throttle w = K \<Longrightarrow>
     (0 < K \<longrightarrow>
        effects (sendWithThrottle p w)
          = effects w @ [Sleep (round (((1.05::real) ^ nat K - 1) * 1000))]
        \<and> suspended (sendWithThrottle p w) = suspended w @ [AwaitSleep p]
        \<and> (suspended w = [] \<and> stringifies p \<longrightarrow>
             effects (sleepDone 0 (sendWithThrottle p w))
               = effects w @ [Sleep (round (((1.05::real) ^ nat K - 1) * 1000)), Send p, Fetch p])
        \<and> (suspended w = [] \<and> \<not> stringifies p \<longrightarrow>
             effects (sleepDone 0 (sendWithThrottle p w))
               = effects w @ [Sleep (round (((1.05::real) ^ nat K - 1) * 1000)), Send p,
                   Log LError (SendFailed
                     (ErrorObject ''TypeError'' ''Do not know how to serialize a BigInt''))]))
   \<and> (K = 0 \<and> stringifies p \<longrightarrow> effects (sendWithThrottle p w) = effects w @ [Send p, Fetch p])
   \<and> (K = 0 \<and> \<not> stringifies p \<longrightarrow>
        effects (sendWithThrottle p w)
          = effects w @ [Send p, Log LError (SendFailed
                     (ErrorObject ''TypeError'' ''Do not know how to serialize a BigInt''))]
        \<and> suspended (sendWithThrottle p w) = suspended w @ [AwaitSettled p JNull])
   \<and> (suspended w = [AwaitSend p] \<longrightarrow>
        throttle (sendDone 0 outcome w)
          = (if fst (sendEnd outcome (effects w)) = JNull then min (K + 1) 100 else max (K - 1) 0))
   \<and> (suspended w = [AwaitSettled p result] \<longrightarrow>
        throttle (sendDone 0 outcome w)
          = (if result = JNull then min (K + 1) 100 else max (K - 1) 0))
   \<and> (\<forall>rt es c. w = run rt es (newWorker c) \<longrightarrow> 0 \<le> K \<and> K \<le> 100)"
proof -
  assume K: "throttle w = K"
  have sleep: "effects (sleepDone 0 (sendWithThrottle p w))
               = effects w @ [Sleep (round (((1.05::real) ^ nat K - 1) * 1000)), Send p, Fetch p]"
    if "0 < K" "suspended w = [] \<and> stringifies p"
    using that K
    by (simp add: sendWithThrottle_sleeps sleepDone_def startSend_eq dropAt_def)
  have sleep': "effects (sleepDone 0 (sendWithThrottle p w))
               = effects w @ [Sleep (round (((1.05::real) ^ nat K - 1) * 1000)), Send p,
                   Log LError (SendFailed
                     (ErrorObject ''TypeError'' ''Do not know how to serialize a BigInt''))]"
    if "0 < K" "suspended w = [] \<and> \<not> stringifies p"
    using that K
    by (simp add: sendWithThrottle_sleeps sleepDone_def startSend_eq dropAt_def)
  have level: "throttle (sendDone 0 outcome w)
          = (if fst (sendEnd outcome (effects w)) = JNull then min (K + 1) 100 else max (K - 1) 0)"
    if "suspended w = [AwaitSend p]"
    using that K
    by (simp add: sendDone_def Let_def dropAt_def drainLoop_fields finishSend_throttle
        MAX_THROTTLE_def)
  have level': "throttle (sendDone 0 outcome w)
          = (if result = JNull then min (K + 1) 100 else max (K - 1) 0)"
    if "suspended w = [AwaitSettled p result]"
    using that K
    by (simp add: sendDone_def Let_def dropAt_def drainLoop_fields adjustThrottle_throttle
        MAX_THROTTLE_def)
  have reach: "0 \<le> K \<and> K \<le> 100" if "w = run rt es (newWorker c)" for rt es c
  proof -
    have "wellFormed w" unfolding that by (rule run_wellFormed [OF newWorker_wellFormed])
    with K show ?thesis by (simp add: wellFormed_def MAX_THROTTLE_def)
  qed
  have slept: "effects (sendWithThrottle p w)
          = effects w @ [Sleep (round (((1.05::real) ^ nat K - 1) * 1000))]
        \<and> suspended (sendWithThrottle p w) = suspended w @ [AwaitSleep p]" if "0 < K"
    using that K by (simp add: sendWithThrottle_sleeps)
  have direct: "effects (sendWithThrottle p w) = effects w @ [Send p, Fetch p]"
    if "K = 0 \<and> stringifies p"
    using that K by (simp add: sendWithThrottle_def startSend_eq)
  have direct': "effects (sendWithThrottle p w)
          = effects w @ [Send p, Log LError (SendFailed
                     (ErrorObject ''TypeError'' ''Do not know how to serialize a BigInt''))]
        \<and> suspended (sendWithThrottle p w) = suspended w @ [AwaitSettled p JNull]"
    if "K = 0 \<and> \<not> stringifies p"
    using that K by (simp add: sendWithThrottle_def startSend_eq)
  show ?thesis
    using slept sleep sleep' direct direct' level level' reach by blast
qed

theorem throttle_sleep_and_level_witness:
  "effects (sleepDone 0 (sendWithThrottle (toPayload exampleRuntime (exampleNotice ''a''))
       (newWorker (exampleConfig None) \<lparr>throttle := 2\<rparr>)))
     = [Sleep 103, Send (toPayload exampleRuntime (exampleNotice ''a'')),
        Fetch (toPayload exampleRuntime (exampleNotice ''a''))]
   \<and> effects (sleepDone 0 (sendWithThrottle (toPayload exampleRuntime bigIntNotice)
       (newWorker (exampleConfig None) \<lparr>throttle := 2\<rparr>)))
     = [Sleep 103, Send (toPayload exampleRuntime bigIntNotice),
        Log LError (SendFailed
          (ErrorObject ''TypeError'' ''Do not know how to serialize a BigInt''))]
   \<and> effects (sendWithThrottle (toPayload exampleRuntime (exampleNotice ''a''))
       (newWorker (exampleConfig None)))
     = [Send (toPayload exampleRuntime (exampleNotice ''a'')),
        Fetch (toPayload exampleRuntime (exampleNotice ''a''))]
   \<and> suspended (sendWithThrottle (toPayload exampleRuntime bigIntNotice)
       (newWorker (exampleConfig None)))
     = [AwaitSettled (toPayload exampleRuntime bigIntNotice) JNull]
   \<and> throttle (sendDone 0 (Fulfilled unavailable)
        (newWorker (exampleConfig None)
           \<lparr>throttle := 2, suspended := [AwaitSend (toPayload exampleRuntime (exampleNotice ''a''))]\<rparr>))
     = 3
   \<and> throttle (sendDone 0 (Fulfilled created)
        (newWorker (exampleConfig None)
           \<lparr>throttle := 2, suspended := [AwaitSend (toPayload exampleRuntime (exampleNotice ''a''))]\<rparr>))
     = 1
   \<and> throttle (sendDone 0 (Fulfilled unavailable)
        (newWorker (exampleConfig None)
           \<lparr>throttle := 100, suspended := [AwaitSend (toPayload exampleRuntime (exampleNotice ''a''))]\<rparr>))
     = 100
   \<and> throttle (sendDone 0 (Fulfilled created)
        (newWorker (exampleConfig None)
           \<lparr>throttle := 0, suspended := [AwaitSend (toPayload exampleRuntime (exampleNotice ''a''))]\<rparr>))
     = 0
   \<and> throttle (sendDone 0 (Fulfilled created)
        (newWorker (exampleConfig None)
           \<lparr>throttle := 2, suspended := [AwaitSettled (toPayload exampleRuntime bigIntNotice) JNull]\<rparr>))
     = 3
   \<and> throttle (run exampleRuntime exampleEvents (newWorker (exampleConfig None))) = 0"
proof -
  let ?a = "toPayload exampleRuntime (exampleNotice ''a'')"
  let ?b = "toPayload exampleRuntime bigIntNotice"
  have r: "round (((1.05::real) ^ nat 2 - 1) * 1000) = 103"
    by (simp add: round_def power2_eq_square)
  have sa: "stringifies ?a" and sb: "\<not> stringifies ?b"
    using examples_stringify by simp_all
  have t: "throttle (run exampleRuntime exampleEvents (newWorker (exampleConfig None))) = 0"
    using exampleEvents_run by simp
  have c1: "effects (sleepDone 0 (sendWithThrottle ?a
       (newWorker (exampleConfig None) \<lparr>throttle := 2\<rparr>)))
     = [Sleep 103, Send ?a, Fetch ?a]"
    using throttle_sleep_and_level [of "newWorker (exampleConfig None) \<lparr>throttle := 2\<rparr>" 2 ?a]
      r sa
    by (simp add: newWorker_def)
  have c2: "effects (sleepDone 0 (sendWithThrottle ?b
       (newWorker (exampleConfig None) \<lparr>throttle := 2\<rparr>)))
     = [Sleep 103, Send ?b, Log LError (SendFailed
          (ErrorObject ''TypeError'' ''Do not know how to serialize a BigInt''))]"
    using throttle_sleep_and_level [of "newWorker (exampleConfig None) \<lparr>throttle := 2\<rparr>" 2 ?b]
      r sb
    by (simp add: newWorker_def)
  have c3: "effects (sendWithThrottle ?a (newWorker (exampleConfig None))) = [Send ?a, Fetch ?a]"
    using throttle_sleep_and_level [of "newWorker (exampleConfig None)" 0 ?a] sa
    by (simp add: newWorker_def)
  have c4: "suspended (sendWithThrottle ?b (newWorker (exampleConfig None)))
     = [AwaitSettled ?b JNull]"
    using throttle_sleep_and_level [of "newWorker (exampleConfig None)" 0 ?b] sb
    by (simp add: newWorker_def)
  have c5: "throttle (sendDone 0 (Fulfilled unavailable)
        (newWorker (exampleConfig None) \<lparr>throttle := 2, suspended := [AwaitSend ?a]\<rparr>)) = 3"
    using throttle_sleep_and_level [of "newWorker (exampleConfig None)
           \<lparr>throttle := 2, suspended := [AwaitSend ?a]\<rparr>" 2 ?a "Fulfilled unavailable"]
    by (simp add: newWorker_def sendEnd_def handleResponse_def unavailable_def)
  have c6: "throttle (sendDone 0 (Fulfilled created)
        (newWorker (exampleConfig None) \<lparr>throttle := 2, suspended := [AwaitSend ?a]\<rparr>)) = 1"
    using throttle_sleep_and_level [of "newWorker (exampleConfig None)
           \<lparr>throttle := 2, suspended := [AwaitSend ?a]\<rparr>" 2 ?a "Fulfilled created"]
    by (simp add: newWorker_def sendEnd_def handleResponse_def created_def)
  have c7: "throttle (sendDone 0 (Fulfilled unavailable)
        (newWorker (exampleConfig None) \<lparr>throttle := 100, suspended := [AwaitSend ?a]\<rparr>)) = 100"
    using throttle_sleep_and_level [of "newWorker (exampleConfig None)
           \<lparr>throttle := 100, suspended := [AwaitSend ?a]\<rparr>" 100 ?a "Fulfilled unavailable"]
    by (simp add: newWorker_def sendEnd_def handleResponse_def unavailable_def)
  have c8: "throttle (sendDone 0 (Fulfilled created)
        (newWorker (exampleConfig None) \<lparr>throttle := 0, suspended := [AwaitSend ?a]\<rparr>)) = 0"
    using throttle_sleep_and_level [of "newWorker (exampleConfig None)
           \<lparr>throttle := 0, suspended := [AwaitSend ?a]\<rparr>" 0 ?a "Fulfilled created"]
    by (simp add: newWorker_def sendEnd_def handleResponse_def created_def)
  have c9: "throttle (sendDone 0 (Fulfilled created)
        (newWorker (exampleConfig None) \<lparr>throttle := 2, suspended := [AwaitSettled ?b JNull]\<rparr>)) = 3"
    using throttle_sleep_and_level [of "newWorker (exampleConfig None)
           \<lparr>throttle := 2, suspended := [AwaitSettled ?b JNull]\<rparr>" 2 ?b "Fulfilled created" JNull]
    by (simp add: newWorker_def)
  have c10: "0 \<le> throttle (run exampleRuntime exampleEvents (newWorker (exampleConfig None)))"
    using throttle_sleep_and_level [OF refl, of "run exampleRuntime exampleEvents
        (newWorker (exampleConfig None))"]
    by blast
  show ?thesis using c1 c2 c3 c4 c5 c6 c7 c8 c9 c10 t by simp
qed


lemma stop_shutdown: "shutdown (stop w)"
  by (simp add: stop_def)

lemma step_shutdown: "shutdown w \<Longrightarrow> shutdown (step rt e w)"
proof (cases e)
  case (Push notice)
  assume "shutdown w"
  with Push show ?thesis by (simp add: push_def)
next
  case Stop
  then show ?thesis by (simp add: stop_shutdown)
next
  case (Flush r)
  assume "shutdown w"
  with Flush show ?thesis by (simp add: flush_def Let_def processQueue_fields)
next
  case (SleepDone i)
  assume "shutdown w"
  with SleepDone show ?thesis
    by (simp add: sleepDone_def startSend_eq split: suspension.splits)
next
  case (SendDone i outcome)
  assume "shutdown w"
  with SendDone show ?thesis
    by (simp add: sendDone_def Let_def drainLoop_fields finishSend_fields adjustThrottle_fields
        split: suspension.splits)
next
  case (FlushTimer r)
  assume "shutdown w"
  with FlushTimer show ?thesis by (simp add: flushTimer_def)
next
  case StopTimer
  assume "shutdown w"
  with StopTimer show ?thesis by (simp add: stopTimer_def)
next
  case DrainCheck
  assume "shutdown w"
  with DrainCheck show ?thesis by (simp add: drainCheck_def)
qed

lemma run_shutdown: "shutdown w \<Longrightarrow> shutdown (run rt es w)"
  by (induction es arbitrary: w) (simp_all add: step_shutdown)

text \<open>
  Claim C9. When shutdown has begun or the queue holds at least \<open>maxQueueSize\<close> items,
  \<open>push\<close> returns \<open>false\<close> and the queue, the suspended call, the payloads handed to the
  transport and the requests issued are as before: the notice is dropped. Otherwise \<open>push\<close> returns \<open>true\<close> after appending the
  payload of the notice and calling \<open>processQueue\<close>, which only leaves the payload queued
  when the loop is running and starts the loop when it is idle. After \<open>stop\<close>, whatever
  happens next, every \<open>push\<close> returns \<open>false\<close> and leaves the queue as it is. The default
  of \<open>maxQueueSize\<close> is 1000.
\<close>

theorem push_rejects_or_enqueues:
  "((shutdown w \<or> maxQueueSize (config w) \<le> length (queue w)) \<longrightarrow>
       fst (push rt n w) = False
       \<and> queue (snd (push rt n w)) = queue w
       \<and> suspended (snd (push rt n w)) = suspended w
       \<and> fetched (effects (snd (push rt n w))) = fetched (effects w)
       \<and> sent (effects (snd (push rt n w))) = sent (effects w))
   \<and> (\<not> shutdown w \<and> length (queue w) < maxQueueSize (config w) \<longrightarrow>
       fst (push rt n w) = True
       \<and> snd (push rt n w) = processQueue (w\<lparr>queue := queue w @ [Payload (toPayload rt n)]\<rparr>)
       \<and> (processing w \<longrightarrow>
            snd (push rt n w) = w\<lparr>queue := queue w @ [Payload (toPayload rt n)]\<rparr>)
       \<and> (\<not> processing w \<longrightarrow>
            snd (push rt n w)
              = drainLoop (queue w @ [Payload (toPayload rt n)])
                  (w\<lparr>queue := queue w @ [Payload (toPayload rt n)], processing := True\<rparr>)))
   \<and> (\<forall>es. fst (push rt n (run rt es (stop w))) = False
          \<and> queue (snd (push rt n (run rt es (stop w)))) = queue (run rt es (stop w)))
   \<and> maxQueueSize (newConfiguration (options\<lparr>opt_maxQueueSize := None\<rparr>)) = 1000"
proof -
  have after: "fst (push rt n (run rt es (stop w))) = False
          \<and> queue (snd (push rt n (run rt es (stop w)))) = queue (run rt es (stop w))" for es
    using run_shutdown [OF stop_shutdown, of rt es w] by (simp add: push_def)
  show ?thesis
    using after
    by (auto simp: push_def processQueue_def newConfiguration_def fetched_append sent_append)
qed

lemma busyWorker_state:
  "queue busyWorker = [Payload (toPayload exampleRuntime (exampleNotice ''b''))]
   \<and> processing busyWorker \<and> \<not> shutdown busyWorker \<and> maxQueueSize (config busyWorker) = 1
   \<and> suspended busyWorker = [AwaitSend (toPayload exampleRuntime (exampleNotice ''a''))]
   \<and> timers busyWorker = []
   \<and> effects busyWorker = [Send (toPayload exampleRuntime (exampleNotice ''a'')),
        Fetch (toPayload exampleRuntime (exampleNotice ''a''))]"
  by (simp add: busyWorker_def exampleConfig_def newWorker_def newConfiguration_def push_def
      processQueue_def sendWithThrottle_def startSend_eq examples_stringify)

theorem push_rejects_or_enqueues_witness:
  "fst (push exampleRuntime (exampleNotice ''c'') busyWorker) = False
   \<and> queue (snd (push exampleRuntime (exampleNotice ''c'') busyWorker)) = queue busyWorker
   \<and> fst (push exampleRuntime (exampleNotice ''a'') (newWorker (exampleConfig None))) = True
   \<and> fst (push exampleRuntime (exampleNotice ''c'')
        (run exampleRuntime [Flush 3] (stop (newWorker (exampleConfig None))))) = False
   \<and> maxQueueSize (exampleConfig None) = 1000"
proof -
  have idle: "\<not> shutdown (newWorker (exampleConfig None))
      \<and> length (queue (newWorker (exampleConfig None)))
          < maxQueueSize (config (newWorker (exampleConfig None)))"
    by (simp add: newWorker_def exampleConfig_def newConfiguration_def)
  have full: "maxQueueSize (config busyWorker) \<le> length (queue busyWorker)"
    using busyWorker_state by simp
  have cfg: "exampleConfig None
      = newConfiguration (\<lparr>opt_timeout = None, opt_beforeNotify = None,
          opt_maxQueueSize = None, opt_shutdownTimeout = None\<rparr>\<lparr>opt_maxQueueSize := None\<rparr>)"
    by (simp add: exampleConfig_def)
  have a: "fst (push exampleRuntime (exampleNotice ''c'') busyWorker) = False
      \<and> queue (snd (push exampleRuntime (exampleNotice ''c'') busyWorker)) = queue busyWorker"
    using push_rejects_or_enqueues [of busyWorker exampleRuntime "exampleNotice ''c''"] full
    by blast
  have b: "fst (push exampleRuntime (exampleNotice ''a'') (newWorker (exampleConfig None))) = True"
    using push_rejects_or_enqueues [of "newWorker (exampleConfig None)" exampleRuntime
        "exampleNotice ''a''"] idle
    by blast
  have c: "fst (push exampleRuntime (exampleNotice ''c'')
        (run exampleRuntime [Flush 3] (stop (newWorker (exampleConfig None))))) = False"
    using push_rejects_or_enqueues [of "newWorker (exampleConfig None)" exampleRuntime
        "exampleNotice ''c''"]
    by blast
  have d: "maxQueueSize (exampleConfig None) = 1000"
    unfolding cfg
    using push_rejects_or_enqueues [of busyWorker exampleRuntime "exampleNotice ''c''"
        "\<lparr>opt_timeout = None, opt_beforeNotify = None, opt_maxQueueSize = None,
          opt_shutdownTimeout = None\<rparr>"]
    by blast
  show ?thesis using a b c d by blast
qed


lemma drainLoop_effects_grow: "set (effects w) \<subseteq> set (effects (drainLoop q w))"
proof (induction q w rule: drainLoop.induct)
  case (3 r rest w)
  then show ?case by auto
next
  case (4 p rest w)
  then show ?case by (auto simp: sendWithThrottle_def startSend_eq)
qed simp_all

lemma drainLoop_flush_kept:
  "FLUSH r \<in> set q \<Longrightarrow>
     FLUSH r \<in> set (queue (drainLoop q w)) \<or> Resolve r \<in> set (effects (drainLoop q w))"
proof (induction q w rule: drainLoop.induct)
  case (1 w)
  then show ?case by simp
next
  case (2 rest w)
  then show ?case by simp
next
  case (3 r' rest w)
  show ?case
  proof (cases "r' = r")
    case True
    have "Resolve r \<in> set (effects (w\<lparr>effects := effects w @ [Resolve r]\<rparr>))" by simp
    then have "Resolve r \<in> set (effects (drainLoop rest (w\<lparr>effects := effects w @ [Resolve r]\<rparr>)))"
      using drainLoop_effects_grow by blast
    with True show ?thesis by simp
  next
    case False
    with 3 show ?thesis by simp
  qed
next
  case (4 p rest w)
  then show ?case by (simp add: sendWithThrottle_def startSend_eq)
qed

lemma flush_marker_kept:
  "FLUSH r \<in> set (queue (flush r w)) \<or> Resolve r \<in> set (effects (flush r w))"
proof (cases "processing w")
  case True
  then show ?thesis by (simp add: flush_def processQueue_def Let_def)
next
  case False
  then have "flush r w =
      (drainLoop (queue w @ [FLUSH r]) (w\<lparr>queue := queue w @ [FLUSH r], processing := True\<rparr>))
        \<lparr>timers := timers w @ [TFlush r]\<rparr>"
    by (simp add: flush_def processQueue_def Let_def drainLoop_fields)
  then show ?thesis
    using drainLoop_flush_kept [of r "queue w @ [FLUSH r]"
        "w\<lparr>queue := queue w @ [FLUSH r], processing := True\<rparr>"]
    by auto
qed

text \<open>
  Claim C10, as the code has it. Neither \<open>stop\<close> nor \<open>flush\<close> looks at the length of the
  queue. \<open>stop\<close> appends its shutdown marker unless shutdown has already begun, in which
  case it returns at once and the queue is as before; either way \<open>shutdown\<close> is set and
  the promise it waits for is resolved at the latest when its timer fires. \<open>flush\<close>
  appends its marker whatever the length of the queue and whether or not shutdown has
  begun: the marker is then in the queue or has already been resolved by the loop, it is
  at the end of the queue when the loop is running, and the promise is resolved at the
  latest when the timer of the flush fires.
\<close>

theorem markers_bypass_capacity:
  "(\<not> shutdown w \<longrightarrow> queue (stop w) = queue w @ [SHUTDOWN])
   \<and> (shutdown w \<longrightarrow> queue (stop w) = queue w)
   \<and> shutdown (stop w)
   \<and> StopResolved \<in> set (effects (stopTimer (stop w)))
   \<and> (FLUSH r \<in> set (queue (flush r w)) \<or> Resolve r \<in> set (effects (flush r w)))
   \<and> (processing w \<longrightarrow> queue (flush r w) = queue w @ [FLUSH r])
   \<and> Resolve r \<in> set (effects (flushTimer r (flush r w)))"
proof -
  have "TFlush r \<in> set (timers (flush r w))"
    by (simp add: flush_def Let_def)
  then have "Resolve r \<in> set (effects (flushTimer r (flush r w)))"
    by (simp add: flushTimer_def)
  moreover have "StopResolved \<in> set (effects (stopTimer (stop w)))"
    by (simp add: stop_def stopTimer_def)
  moreover have "processing w \<longrightarrow> queue (flush r w) = queue w @ [FLUSH r]"
    by (simp add: flush_def processQueue_def Let_def)
  ultimately show ?thesis
    using flush_marker_kept [of r w] by (simp add: stop_def)
qed

theorem markers_bypass_capacity_witness:
  "maxQueueSize (config busyWorker) \<le> length (queue busyWorker)
   \<and> queue (stop busyWorker)
       = [Payload (toPayload exampleRuntime (exampleNotice ''b'')), SHUTDOWN]
   \<and> queue (flush 7 (stop busyWorker))
       = [Payload (toPayload exampleRuntime (exampleNotice ''b'')), SHUTDOWN, FLUSH 7]
   \<and> Resolve 7 \<in> set (effects (flushTimer 7 (flush 7 (stop busyWorker))))
   \<and> StopResolved \<in> set (effects (stopTimer (stop busyWorker)))"
proof -
  have s: "processing (stop busyWorker) \<and> shutdown (stop busyWorker)"
    using busyWorker_state by (simp add: stop_def)
  have q: "queue (stop busyWorker)
       = [Payload (toPayload exampleRuntime (exampleNotice ''b'')), SHUTDOWN]"
    using markers_bypass_capacity [of busyWorker] busyWorker_state by simp
  have f: "queue (flush 7 (stop busyWorker))
       = [Payload (toPayload exampleRuntime (exampleNotice ''b'')), SHUTDOWN, FLUSH 7]"
    using markers_bypass_capacity [of "stop busyWorker" 7] s q by simp
  show ?thesis
    using markers_bypass_capacity [of "stop busyWorker" 7] markers_bypass_capacity [of busyWorker]
      busyWorker_state q f
    by simp
qed

text \<open>
  Claim C10 as stated says that \<open>stop\<close> always appends its marker, with no shutdown
  check. A second \<open>stop\<close> appends nothing: the queue holds one marker after one call and
  still one after two.
\<close>

theorem stop_twice_counterexample:
  "shutdown (stop (newWorker (exampleConfig None)))
   \<and> queue (stop (newWorker (exampleConfig None))) = [SHUTDOWN]
   \<and> queue (stop (stop (newWorker (exampleConfig None)))) = [SHUTDOWN]"
  by (simp add: stop_def newWorker_def)


end
